theory Spec2Isabelle
  imports Complex_Main
begin

section \<open>Seismic attribute calculator: a model of \<^verbatim>\<open>seismic_attrs.py\<close>\<close>

text \<open>
  The script reads a 3D seismic cube, normalises it and computes a coherence attribute.
  Python exceptions are values of the type \<open>error\<close>; a function that may raise returns
  \<open>error + 'a\<close>, with \<open>Inl\<close> for the exception. The message of an exception is kept
  without the values the source formats into it. Python integers are \<open>int\<close>. Sample
  values are \<open>real\<close>, which idealises the arithmetic of the 32-bit floats to exact
  arithmetic; the z-window normalisation is embedded a second time on floats that
  overflow, to follow it where a value leaves the range of the format.
\<close>

datatype error = ValueError string | IndexError string

subsection \<open>Python strings: \<^verbatim>\<open>str.split\<close>, \<^verbatim>\<open>int\<close>, \<^verbatim>\<open>str\<close>\<close>

text \<open>
  \<^verbatim>\<open>s.split(sep)\<close> for a one-character separator: the pieces between the separators,
  empty pieces kept; the result is never empty.
\<close>

fun split_on :: "char \<Rightarrow> string \<Rightarrow> string list" where
  "split_on sep [] = [[]]"
| "split_on sep (c # cs) =
     (if c = sep then [] # split_on sep cs
      else (c # hd (split_on sep cs)) # tl (split_on sep cs))"

text \<open>
  \<^verbatim>\<open>int(s)\<close> on a string, base 10: surrounding whitespace is removed, one sign is
  allowed, then come decimal digits, where a single underscore may stand between two
  digits. Anything else raises \<^verbatim>\<open>ValueError\<close>. A character of a string is a code point
  below 256. Among these, \<^verbatim>\<open>int\<close> removes tab, line feed, vertical tab, form feed,
  carriage return, space, and the two whitespace characters above 127, next line (133)
  and no-break space (160); the separators 28 to 31 are not removed. The decimal digits
  are \<^verbatim>\<open>0\<close> to \<^verbatim>\<open>9\<close>. Code points from 256 on and the interpreter's configurable limit
  on the number of digits are not part of the model.
\<close>

definition is_space :: "char \<Rightarrow> bool" where
  "is_space c =
     (let n = (of_char c :: nat) in (9 \<le> n \<and> n \<le> 13) \<or> n = 32 \<or> n = 133 \<or> n = 160)"

definition is_digit :: "char \<Rightarrow> bool" where
  "is_digit c = (let n = (of_char c :: nat) in 48 \<le> n \<and> n \<le> 57)"

definition digit_val :: "char \<Rightarrow> nat" where
  "digit_val c = of_char c - 48"

definition strip :: "string \<Rightarrow> string" where
  "strip s = rev (dropWhile is_space (rev (dropWhile is_space s)))"

text \<open>\<open>digits_tail acc cs\<close> reads what follows a digit; \<open>acc\<close> is the value read so far.\<close>

fun digits_tail :: "nat \<Rightarrow> string \<Rightarrow> nat option" where
  "digits_tail acc [] = Some acc"
| "digits_tail acc [c] = (if is_digit c then Some (10 * acc + digit_val c) else None)"
| "digits_tail acc (c # d # cs) =
     (if is_digit c then digits_tail (10 * acc + digit_val c) (d # cs)
      else if c = CHR ''_'' \<and> is_digit d then digits_tail (10 * acc + digit_val d) cs
      else None)"

definition digits_value :: "string \<Rightarrow> nat option" where
  "digits_value s =
     (case s of [] \<Rightarrow> None
      | c # cs \<Rightarrow> if is_digit c then digits_tail (digit_val c) cs else None)"

definition py_int :: "string \<Rightarrow> error + int" where
  "py_int s =
     (let t = strip s;
          neg = (t \<noteq> [] \<and> hd t = CHR ''-'');
          body = (if t \<noteq> [] \<and> (hd t = CHR ''-'' \<or> hd t = CHR ''+'') then tl t else t)
      in case digits_value body of
           None \<Rightarrow> Inl (ValueError ''invalid literal for int() with base 10'')
         | Some n \<Rightarrow> Inr (if neg then - int n else int n))"

text \<open>\<^verbatim>\<open>str(n)\<close> for an integer: decimal digits, no leading zero, \<^verbatim>\<open>-\<close> before a negative.\<close>

fun str_nat :: "nat \<Rightarrow> string" where
  "str_nat n = (if n < 10 then [char_of (48 + n)] else str_nat (n div 10) @ [char_of (48 + n mod 10)])"

declare str_nat.simps [simp del]

definition str_int :: "int \<Rightarrow> string" where
  "str_int i = (if i < 0 then CHR ''-'' # str_nat (nat (- i)) else str_nat (nat i))"

text \<open>
  \<^verbatim>\<open>a, b = map(int, parts)\<close> and its three-target form. \<^verbatim>\<open>map\<close> is lazy: the
  conversions run one by one as the assignment asks for the next item, and after the
  last target it asks once more to see that nothing is left, which converts a further
  part if there is one.
\<close>

fun take_ints :: "nat \<Rightarrow> string list \<Rightarrow> error + int list" where
  "take_ints 0 [] = Inr []"
| "take_ints 0 (p # ps) =
     (case py_int p of Inl e \<Rightarrow> Inl e
      | Inr v \<Rightarrow> Inl (ValueError ''too many values to unpack''))"
| "take_ints (Suc n) [] = Inl (ValueError ''not enough values to unpack'')"
| "take_ints (Suc n) (p # ps) =
     (case py_int p of Inl e \<Rightarrow> Inl e
      | Inr v \<Rightarrow> (case take_ints n ps of Inl e \<Rightarrow> Inl e | Inr vs \<Rightarrow> Inr (v # vs)))"

definition unpack2 :: "string list \<Rightarrow> error + int \<times> int" where
  "unpack2 parts =
     (case take_ints 2 parts of Inl e \<Rightarrow> Inl e | Inr vs \<Rightarrow> Inr (vs ! 0, vs ! 1))"

definition unpack3 :: "string list \<Rightarrow> error + int \<times> int \<times> int" where
  "unpack3 parts =
     (case take_ints 3 parts of Inl e \<Rightarrow> Inl e | Inr vs \<Rightarrow> Inr (vs ! 0, vs ! 1, vs ! 2))"

subsection \<open>\<^verbatim>\<open>parse_range\<close> and \<^verbatim>\<open>parse_patch\<close>\<close>

definition parse_range :: "string \<Rightarrow> error + int \<times> int" where
  "parse_range range_str =
     (if CHR '':'' \<notin> set range_str then Inl (ValueError ''Invalid range format'')
      else case unpack2 (split_on CHR '':'' range_str) of
             Inl e \<Rightarrow> Inl e
           | Inr (start, end) \<Rightarrow>
               if start \<ge> end then Inl (ValueError ''Invalid range'')
               else Inr (start, end))"

definition ensure_odd :: "int \<Rightarrow> int" where
  "ensure_odd p = (if p mod 2 = 1 then p else p + 1)"

text \<open>
  The body of the \<^verbatim>\<open>try\<close> block of \<^verbatim>\<open>parse_patch\<close>, and the function itself, whose
  handler turns every exception of the body into the one \<^verbatim>\<open>ValueError\<close>.
\<close>

definition parse_patch_body :: "string \<Rightarrow> error + int \<times> int \<times> int" where
  "parse_patch_body patch_str =
     (case unpack3 (split_on CHR '','' patch_str) of
        Inl e \<Rightarrow> Inl e
      | Inr (py, px, pz) \<Rightarrow>
          (let py = ensure_odd py; px = ensure_odd px; pz = ensure_odd pz
           in if list_ex (\<lambda>p. p < 3) [py, px, pz]
              then Inl (ValueError ''Patch sizes must be >= 3'')
              else Inr (py, px, pz)))"

definition parse_patch :: "string \<Rightarrow> error + int \<times> int \<times> int" where
  "parse_patch patch_str =
     (case parse_patch_body patch_str of
        Inl e \<Rightarrow> Inl (ValueError ''Invalid patch format'')
      | Inr r \<Rightarrow> Inr r)"

subsection \<open>Arrays\<close>

text \<open>
  A three-dimensional array carries its shape and its samples, as nested lists in the
  order (inline, crossline, depth). The shape is kept apart from the samples because an
  array with an empty axis still has a length on its other axes. The type of the samples
  is a parameter: the functions that only move samples do not depend on it.
\<close>

record 'a ndarray =
  shape :: "nat \<times> nat \<times> nat"
  vals :: "'a list list list"

definition tabulate3 :: "nat \<times> nat \<times> nat \<Rightarrow> (nat \<Rightarrow> nat \<Rightarrow> nat \<Rightarrow> 'a) \<Rightarrow> 'a ndarray" where
  "tabulate3 sh f =
     (case sh of (n0, n1, n2) \<Rightarrow>
        \<lparr>shape = sh,
         vals = map (\<lambda>i. map (\<lambda>j. map (\<lambda>k. f i j k) [0..<n2]) [0..<n1]) [0..<n0]\<rparr>)"

definition sample :: "'a ndarray \<Rightarrow> nat \<Rightarrow> nat \<Rightarrow> nat \<Rightarrow> 'a" where
  "sample a i j k = vals a ! i ! j ! k"

definition extent :: "nat \<times> nat \<times> nat \<Rightarrow> nat \<Rightarrow> nat" where
  "extent sh ax = (case sh of (n0, n1, n2) \<Rightarrow> [n0, n1, n2] ! ax)"

definition map_samples :: "('a \<Rightarrow> 'a) \<Rightarrow> 'a ndarray \<Rightarrow> 'a ndarray" where
  "map_samples g a = a\<lparr>vals := map (map (map g)) (vals a)\<rparr>"

text \<open>An array is well shaped when its nested lists have the lengths its shape gives.\<close>

definition well_shaped :: "'a ndarray \<Rightarrow> bool" where
  "well_shaped a =
     (length (vals a) = extent (shape a) 0 \<and>
      list_all (\<lambda>plane. length plane = extent (shape a) 1 \<and>
                  list_all (\<lambda>tr. length tr = extent (shape a) 2) plane) (vals a))"

text \<open>
  A Python slice \<^verbatim>\<open>xs[a:b]\<close>: a negative bound counts from the end, and both bounds are
  clipped to the length, so a slice never raises.
\<close>

definition clip :: "nat \<Rightarrow> int \<Rightarrow> nat" where
  "clip n i = (if i < 0 then nat (max 0 (int n + i)) else min (nat i) n)"

definition slice_len :: "nat \<Rightarrow> int \<Rightarrow> int \<Rightarrow> nat" where
  "slice_len n a b = clip n b - clip n a"

definition py_slice :: "'a list \<Rightarrow> int \<Rightarrow> int \<Rightarrow> 'a list" where
  "py_slice xs a b = take (slice_len (length xs) a b) (drop (clip (length xs) a) xs)"

text \<open>\<^verbatim>\<open>c[a0:b0, a1:b1, a2:b2]\<close>\<close>

definition crop :: "real ndarray \<Rightarrow> int \<times> int \<Rightarrow> int \<times> int \<Rightarrow> int \<times> int \<Rightarrow> real ndarray" where
  "crop c r0 r1 r2 =
     \<lparr>shape = (slice_len (extent (shape c) 0) (fst r0) (snd r0),
               slice_len (extent (shape c) 1) (fst r1) (snd r1),
               slice_len (extent (shape c) 2) (fst r2) (snd r2)),
      vals = map (\<lambda>plane. map (\<lambda>tr. py_slice tr (fst r2) (snd r2))
                              (py_slice plane (fst r1) (snd r1)))
                 (py_slice (vals c) (fst r0) (snd r0))\<rparr>"

text \<open>\<^verbatim>\<open>np.zeros((d0, d1, d2))\<close> raises on a negative dimension.\<close>

definition zeros :: "int \<times> int \<times> int \<Rightarrow> error + real ndarray" where
  "zeros d =
     (case d of (d0, d1, d2) \<Rightarrow>
        if d0 < 0 \<or> d1 < 0 \<or> d2 < 0 then Inl (ValueError ''negative dimensions are not allowed'')
        else Inr (tabulate3 (nat d0, nat d1, nat d2) (\<lambda>i j k. 0)))"

text \<open>
  \<^verbatim>\<open>data[i, j, :] = v\<close>: the value must have the length of the depth axis, or length
  one, in which case it is repeated; any other length raises.
\<close>

definition put_trace :: "real ndarray \<Rightarrow> nat \<Rightarrow> nat \<Rightarrow> real list \<Rightarrow> real ndarray" where
  "put_trace d i j v = d\<lparr>vals := (vals d)[i := (vals d ! i)[j := v]]\<rparr>"

definition set_trace :: "real ndarray \<Rightarrow> nat \<Rightarrow> nat \<Rightarrow> real list \<Rightarrow> error + real ndarray" where
  "set_trace d i j v =
     (if length v = extent (shape d) 2 then Inr (put_trace d i j v)
      else if length v = 1 then Inr (put_trace d i j (replicate (extent (shape d) 2) (v ! 0)))
      else Inl (ValueError ''could not broadcast input array''))"

text \<open>
  \<^verbatim>\<open>np.transpose(data, perm)\<close> for a permutation \<open>perm\<close> of 0, 1, 2: axis \<open>k\<close> of the
  result is axis \<open>perm ! k\<close> of \<open>data\<close>.
\<close>

definition index_of :: "int list \<Rightarrow> int \<Rightarrow> nat" where
  "index_of perm a = length (takeWhile (\<lambda>x. x \<noteq> a) perm)"

definition transpose3 :: "real ndarray \<Rightarrow> int list \<Rightarrow> real ndarray" where
  "transpose3 d perm =
     tabulate3 (extent (shape d) (nat (perm ! 0)), extent (shape d) (nat (perm ! 1)),
                extent (shape d) (nat (perm ! 2)))
       (\<lambda>i0 i1 i2. sample d ([i0, i1, i2] ! index_of perm 0) ([i0, i1, i2] ! index_of perm 1)
                         ([i0, i1, i2] ! index_of perm 2))"

subsection \<open>The trace source\<close>

text \<open>
  The SEG-Y file is read through the \<^verbatim>\<open>segyio\<close> library. The model is what the loader
  uses of an open file with inline-sorted geometry and one offset: the three extents,
  the sample interval and the format of the binary header, and the samples, \<open>raw f t k\<close>
  being sample \<open>k\<close> of trace \<open>t\<close>. There are \<open>num_ilines f * num_xlines f\<close> traces.
\<close>

record segy_file =
  num_ilines :: nat
  num_xlines :: nat
  num_samples :: nat
  interval :: int
  sample_format :: int
  raw :: "nat \<Rightarrow> nat \<Rightarrow> real"

text \<open>
  \<^verbatim>\<open>f.trace[i]\<close>: a negative index counts from the last trace; an index outside the
  file raises \<^verbatim>\<open>IndexError\<close>.
\<close>

definition trace :: "segy_file \<Rightarrow> int \<Rightarrow> error + real list" where
  "trace f i =
     (let n = int (num_ilines f * num_xlines f);
          j = (if i < 0 then i + n else i)
      in if 0 \<le> j \<and> j < n then Inr (map (raw f (nat j)) [0..<num_samples f])
         else Inl (IndexError ''trace index out of range''))"

text \<open>\<^verbatim>\<open>segyio.tools.cube(f)\<close>: all traces, reshaped to (inlines, crosslines, samples).\<close>

definition cube :: "segy_file \<Rightarrow> real ndarray" where
  "cube f =
     tabulate3 (num_ilines f, num_xlines f, num_samples f) (\<lambda>il xl k. raw f (il * num_xlines f + xl) k)"

subsection \<open>\<^verbatim>\<open>load_segy_cube\<close>\<close>

record metadata =
  original_shape :: "nat \<times> nat \<times> nat"
  cropped_shape :: "nat \<times> nat \<times> nat"
  iline_range :: "int \<times> int"
  xline_range :: "int \<times> int"
  z_range :: "int \<times> int"
  sample_interval :: int
  format :: int
  axes_permutation :: "int list option"

text \<open>
  The fallback of the loader. The inner loop runs over the crosslines of one inline
  \<open>il\<close>, which is row \<open>i\<close> of the output; the list holds the pairs of
  \<^verbatim>\<open>enumerate(range(xl_start, xl_end))\<close> still to do. An exception ends both loops.
\<close>

fun fill_xlines ::
  "segy_file \<Rightarrow> int \<times> int \<Rightarrow> nat \<Rightarrow> int \<Rightarrow> (nat \<times> int) list \<Rightarrow> real ndarray \<Rightarrow> error + real ndarray" where
  "fill_xlines f zr i il [] d = Inr d"
| "fill_xlines f zr i il ((j, xl) # rest) d =
     (case trace f (il * int (num_xlines f) + xl) of
        Inl e \<Rightarrow> Inl e
      | Inr tr \<Rightarrow>
          (case set_trace d i j (py_slice tr (fst zr) (snd zr)) of
             Inl e \<Rightarrow> Inl e
           | Inr d' \<Rightarrow> fill_xlines f zr i il rest d'))"

fun fill_ilines ::
  "segy_file \<Rightarrow> int \<times> int \<Rightarrow> int \<times> int \<Rightarrow> (nat \<times> int) list \<Rightarrow> real ndarray \<Rightarrow> error + real ndarray" where
  "fill_ilines f xr zr [] d = Inr d"
| "fill_ilines f xr zr ((i, il) # rest) d =
     (case fill_xlines f zr i il (enumerate 0 [fst xr..snd xr - 1]) d of
        Inl e \<Rightarrow> Inl e
      | Inr d' \<Rightarrow> fill_ilines f xr zr rest d')"

definition trace_by_trace ::
  "segy_file \<Rightarrow> int \<times> int \<Rightarrow> int \<times> int \<Rightarrow> int \<times> int \<Rightarrow> error + real ndarray" where
  "trace_by_trace f ir xr zr =
     (case zeros (snd ir - fst ir, snd xr - fst xr, snd zr - fst zr) of
        Inl e \<Rightarrow> Inl e
      | Inr d \<Rightarrow> fill_ilines f xr zr (enumerate 0 [fst ir..snd ir - 1]) d)"

text \<open>\<^verbatim>\<open>list(map(int, parts))\<close>: the first part that is no integer raises.\<close>

fun ints_of :: "string list \<Rightarrow> error + int list" where
  "ints_of [] = Inr []"
| "ints_of (p # ps) =
     (case py_int p of Inl e \<Rightarrow> Inl e
      | Inr v \<Rightarrow> (case ints_of ps of Inl e \<Rightarrow> Inl e | Inr vs \<Rightarrow> Inr (v # vs)))"

definition apply_swap_axes ::
  "string option \<Rightarrow> real ndarray \<times> metadata \<Rightarrow> error + real ndarray \<times> metadata" where
  "apply_swap_axes swap_axes dm =
     (case swap_axes of
        None \<Rightarrow> Inr dm
      | Some s \<Rightarrow>
          if s = [] then Inr dm
          else (case ints_of (split_on CHR '','' s) of
                  Inl e \<Rightarrow> Inl e
                | Inr perm \<Rightarrow>
                    if length perm \<noteq> 3 \<or> set perm \<noteq> {0, 1, 2}
                    then Inl (ValueError ''Invalid axis permutation'')
                    else Inr (transpose3 (fst dm) perm,
                              (snd dm)\<lparr>axes_permutation := Some perm\<rparr>)))"

text \<open>
  The crop indices: \<^verbatim>\<open>r[0] if r else 0\<close> and \<^verbatim>\<open>r[1] if r else n\<close>, where a range that
  was not given is \<open>None\<close>.
\<close>

definition range_start :: "(int \<times> int) option \<Rightarrow> int" where
  "range_start r = (case r of Some p \<Rightarrow> fst p | None \<Rightarrow> 0)"

definition range_end :: "(int \<times> int) option \<Rightarrow> int \<Rightarrow> int" where
  "range_end r n = (case r of Some p \<Rightarrow> snd p | None \<Rightarrow> n)"

text \<open>
  The loader. \<open>bulk_fits\<close> says whether the \<^verbatim>\<open>try\<close> block, which reads the whole cube
  and crops it, runs without \<^verbatim>\<open>MemoryError\<close>; when it does not, the handler reads trace
  by trace. The conversion to 32-bit floats is the identity on the idealised samples.
\<close>

definition load_segy_cube ::
  "segy_file \<Rightarrow> (int \<times> int) option \<Rightarrow> (int \<times> int) option \<Rightarrow> (int \<times> int) option \<Rightarrow>
   string option \<Rightarrow> bool \<Rightarrow> error + real ndarray \<times> metadata" where
  "load_segy_cube f il_range xl_range zs_range swap_axes bulk_fits =
     (let n_ilines = int (num_ilines f);
          n_xlines = int (num_xlines f);
          n_samples = int (num_samples f);
          il_start = range_start il_range;
          il_end = range_end il_range n_ilines;
          xl_start = range_start xl_range;
          xl_end = range_end xl_range n_xlines;
          z_start = range_start zs_range;
          z_end = range_end zs_range n_samples
      in if il_end > n_ilines \<or> xl_end > n_xlines \<or> z_end > n_samples
         then Inl (ValueError ''Crop ranges exceed cube dimensions'')
         else (case (if bulk_fits
                     then Inr (crop (cube f) (il_start, il_end) (xl_start, xl_end) (z_start, z_end))
                     else trace_by_trace f (il_start, il_end) (xl_start, xl_end) (z_start, z_end)) of
                 Inl e \<Rightarrow> Inl e
               | Inr data \<Rightarrow>
                   apply_swap_axes swap_axes
                     (data,
                      \<lparr>original_shape = (num_ilines f, num_xlines f, num_samples f),
                       cropped_shape = shape data,
                       iline_range = (il_start, il_end),
                       xline_range = (xl_start, xl_end),
                       z_range = (z_start, z_end),
                       sample_interval = interval f,
                       format = sample_format f,
                       axes_permutation = None\<rparr>)))"

text \<open>
  Crop indices that lie inside an axis of \<open>n\<close> entries; a range selection that lies
  inside the axis and is not empty, and the number of entries it selects. A range that
  was not given selects the whole axis.
\<close>

definition inside :: "nat \<Rightarrow> int \<times> int \<Rightarrow> bool" where
  "inside n r = (0 \<le> fst r \<and> fst r \<le> snd r \<and> snd r \<le> int n)"

definition in_extent :: "nat \<Rightarrow> (int \<times> int) option \<Rightarrow> bool" where
  "in_extent n r = (case r of None \<Rightarrow> True | Some p \<Rightarrow> 0 \<le> fst p \<and> fst p < snd p \<and> snd p \<le> int n)"

definition range_len :: "nat \<Rightarrow> (int \<times> int) option \<Rightarrow> nat" where
  "range_len n r = (case r of None \<Rightarrow> n | Some p \<Rightarrow> nat (snd p - fst p))"

subsection \<open>Filters and element-wise operations\<close>

text \<open>
  \<^verbatim>\<open>scipy.ndimage.uniform_filter\<close> with \<^verbatim>\<open>mode='nearest'\<close>. Along one axis the output at
  \<open>i\<close> is the mean of the \<open>sz\<close> inputs at \<open>i - sz div 2, \<dots>\<close>, where an index
  outside the axis takes the nearest sample inside. The filter runs along the axes one
  after the other and leaves out an axis whose size is not above one.
\<close>

definition clamp_index :: "nat \<Rightarrow> int \<Rightarrow> nat" where
  "clamp_index n i = nat (max 0 (min (int n - 1) i))"

definition uniform1 :: "(nat \<Rightarrow> real) \<Rightarrow> nat \<Rightarrow> nat \<Rightarrow> nat \<Rightarrow> real" where
  "uniform1 line n sz i =
     (\<Sum>t\<leftarrow>[0..<sz]. line (clamp_index n (int i - int (sz div 2) + int t))) / real sz"

definition filter_axis0 :: "nat \<Rightarrow> real ndarray \<Rightarrow> real ndarray" where
  "filter_axis0 sz a =
     tabulate3 (shape a) (\<lambda>i j k. uniform1 (\<lambda>t. sample a t j k) (extent (shape a) 0) sz i)"

definition filter_axis1 :: "nat \<Rightarrow> real ndarray \<Rightarrow> real ndarray" where
  "filter_axis1 sz a =
     tabulate3 (shape a) (\<lambda>i j k. uniform1 (\<lambda>t. sample a i t k) (extent (shape a) 1) sz j)"

definition filter_axis2 :: "nat \<Rightarrow> real ndarray \<Rightarrow> real ndarray" where
  "filter_axis2 sz a =
     tabulate3 (shape a) (\<lambda>i j k. uniform1 (\<lambda>t. sample a i j t) (extent (shape a) 2) sz k)"

definition uniform_filter :: "real ndarray \<Rightarrow> int \<times> int \<times> int \<Rightarrow> real ndarray" where
  "uniform_filter input sz =
     (case sz of (s0, s1, s2) \<Rightarrow>
        (let a0 = (if s0 > 1 then filter_axis0 (nat s0) input else input);
             a1 = (if s1 > 1 then filter_axis1 (nat s1) a0 else a0)
         in if s2 > 1 then filter_axis2 (nat s2) a1 else a1))"

text \<open>
  \<^verbatim>\<open>np.pad(a, ((0, 0), (0, 0), (p, p)), mode='reflect')\<close>: the depth axis is mirrored
  about its first and its last sample, the edge sample not repeated, as often as the
  width asks; an axis of length one is extended by its sample. A negative width raises,
  and so does a positive width on an empty axis.
\<close>

definition reflect_index :: "nat \<Rightarrow> int \<Rightarrow> nat" where
  "reflect_index n i =
     (if n \<le> 1 then 0
      else (let period = 2 * (int n - 1); m = i mod period
            in nat (if m < int n then m else period - m)))"

definition np_pad_reflect :: "'a ndarray \<Rightarrow> int \<Rightarrow> error + 'a ndarray" where
  "np_pad_reflect a p =
     (if p < 0 then Inl (ValueError ''index cannot contain negative values'')
      else if p > 0 \<and> extent (shape a) 2 = 0 then Inl (ValueError ''cannot extend empty axis'')
      else Inr (tabulate3 (extent (shape a) 0, extent (shape a) 1, extent (shape a) 2 + 2 * nat p)
                  (\<lambda>i j k. sample a i j (reflect_index (extent (shape a) 2) (int k - p)))))"

text \<open>\<^verbatim>\<open>a[:, :, lo:hi]\<close>\<close>

definition slice_axis2 :: "'a ndarray \<Rightarrow> int \<Rightarrow> int \<Rightarrow> 'a ndarray" where
  "slice_axis2 a lo hi =
     \<lparr>shape = (extent (shape a) 0, extent (shape a) 1, slice_len (extent (shape a) 2) lo hi),
      vals = map (map (\<lambda>tr. py_slice tr lo hi)) (vals a)\<rparr>"

text \<open>
  An element-wise operation on two arrays. \<open>zip_samples\<close> is for operands of one shape.
  \<open>broadcast2\<close> follows the broadcasting rule: on each axis the lengths agree or one of
  them is one, and that operand is repeated; otherwise the operation raises.
\<close>

definition zip_samples :: "('a \<Rightarrow> 'a \<Rightarrow> 'a) \<Rightarrow> 'a ndarray \<Rightarrow> 'a ndarray \<Rightarrow> 'a ndarray" where
  "zip_samples g a b = \<lparr>shape = shape a, vals = map2 (map2 (map2 g)) (vals a) (vals b)\<rparr>"

definition bdim :: "nat \<Rightarrow> nat \<Rightarrow> nat option" where
  "bdim x y = (if x = y then Some x else if x = 1 then Some y else if y = 1 then Some x else None)"

definition pick :: "nat \<Rightarrow> nat \<Rightarrow> nat" where
  "pick n i = (if n = 1 then 0 else i)"

definition broadcast2 :: "('a \<Rightarrow> 'a \<Rightarrow> 'a) \<Rightarrow> 'a ndarray \<Rightarrow> 'a ndarray \<Rightarrow> error + 'a ndarray" where
  "broadcast2 g a b =
     (case (bdim (extent (shape a) 0) (extent (shape b) 0), bdim (extent (shape a) 1) (extent (shape b) 1),
            bdim (extent (shape a) 2) (extent (shape b) 2)) of
        (Some n0, Some n1, Some n2) \<Rightarrow>
          Inr (tabulate3 (n0, n1, n2)
                 (\<lambda>i j k. g (sample a (pick (extent (shape a) 0) i) (pick (extent (shape a) 1) j)
                                      (pick (extent (shape a) 2) k))
                            (sample b (pick (extent (shape b) 0) i) (pick (extent (shape b) 1) j)
                                      (pick (extent (shape b) 2) k))))
      | _ \<Rightarrow> Inl (ValueError ''operands could not be broadcast together''))"

subsection \<open>\<^verbatim>\<open>normalize_volume\<close>\<close>

definition np_mean :: "real list \<Rightarrow> real" where
  "np_mean xs = sum_list xs / real (length xs)"

definition np_std :: "real list \<Rightarrow> real" where
  "np_std xs = sqrt (np_mean (map (\<lambda>x. \<bar>x - np_mean xs\<bar>\<^sup>2) xs))"

definition normalize_trace :: "real \<Rightarrow> real list \<Rightarrow> real list" where
  "normalize_trace eps tr =
     (let mean = np_mean tr; std = np_std tr + eps in map (\<lambda>x. (x - mean) / std) tr)"

text \<open>The two loops of the trace normalisation, which overwrite one trace at a time.\<close>

definition trace_normalize :: "real ndarray \<Rightarrow> real \<Rightarrow> real ndarray" where
  "trace_normalize result eps =
     fold (\<lambda>i r. fold (\<lambda>j r. put_trace r i j (normalize_trace eps (vals r ! i ! j)))
                       [0..<extent (shape r) 1] r)
          [0..<extent (shape result) 0] result"

text \<open>The branch of the z-window normalisation.\<close>

definition z_normalize :: "real ndarray \<Rightarrow> int \<Rightarrow> real \<Rightarrow> error + real ndarray" where
  "z_normalize result z_window eps =
     (let z_window = (if z_window mod 2 = 0 then z_window + 1 else z_window);
          pad_z = z_window div 2
      in case np_pad_reflect result pad_z of
           Inl e \<Rightarrow> Inl e
         | Inr padded \<Rightarrow>
             (let local_mean = slice_axis2 (uniform_filter padded (1, 1, z_window)) pad_z (- pad_z);
                  padded_sq = map_samples (\<lambda>x. x\<^sup>2) padded;
                  local_mean_sq =
                    slice_axis2 (uniform_filter padded_sq (1, 1, z_window)) pad_z (- pad_z);
                  local_var = zip_samples (\<lambda>q m. q - m\<^sup>2) local_mean_sq local_mean;
                  local_std = map_samples (\<lambda>v. sqrt (max v 0) + eps) local_var
              in case broadcast2 (\<lambda>x m. x - m) result local_mean of
                   Inl e \<Rightarrow> Inl e
                 | Inr centred \<Rightarrow> broadcast2 (\<lambda>x s. x / s) centred local_std))"

definition normalize_volume :: "real ndarray \<Rightarrow> string \<Rightarrow> int \<Rightarrow> real \<Rightarrow> error + real ndarray" where
  "normalize_volume data mode z_window eps =
     (if mode = ''none'' then Inr data
      else (let result = data;
                result = (if mode \<in> set [''trace'', ''both''] then trace_normalize result eps
                          else result)
            in if mode \<in> set [''z'', ''both''] then z_normalize result z_window eps
               else Inr result))"

subsection \<open>The z-window normalisation on 32-bit floats\<close>

text \<open>
  The volume of the program holds 32-bit floats. To follow what the z-window branch
  returns when a value leaves their range, a float is a finite real, an infinity or
  NaN. An operation on finite operands gives the exact result while its magnitude is at
  most the largest finite value of the format, and the infinity of its sign beyond;
  the special values combine as in IEEE 754. Rounding of finite results, signed zeros
  and underflow are left out. \<open>f32_max\<close> and \<open>f64_max\<close> are the largest finite values of
  the 32-bit and the 64-bit format; the first argument of an operation is the largest
  finite value of the format it computes in.
\<close>

datatype fl = Finite real | PosInf | NegInf | NaN

definition f32_max :: real where
  "f32_max = (2 - 1 / 2 ^ 23) * 2 ^ 127"

definition f64_max :: real where
  "f64_max = (2 - 1 / 2 ^ 52) * 2 ^ 1023"

definition overflow :: "real \<Rightarrow> real \<Rightarrow> fl" where
  "overflow mx r = (if r > mx then PosInf else if r < - mx then NegInf else Finite r)"

fun fl_neg :: "fl \<Rightarrow> fl" where
  "fl_neg (Finite a) = Finite (- a)"
| "fl_neg PosInf = NegInf"
| "fl_neg NegInf = PosInf"
| "fl_neg NaN = NaN"

fun fl_add :: "real \<Rightarrow> fl \<Rightarrow> fl \<Rightarrow> fl" where
  "fl_add mx NaN y = NaN"
| "fl_add mx x NaN = NaN"
| "fl_add mx (Finite a) (Finite b) = overflow mx (a + b)"
| "fl_add mx PosInf NegInf = NaN"
| "fl_add mx NegInf PosInf = NaN"
| "fl_add mx PosInf y = PosInf"
| "fl_add mx NegInf y = NegInf"
| "fl_add mx x PosInf = PosInf"
| "fl_add mx x NegInf = NegInf"

definition fl_sub :: "real \<Rightarrow> fl \<Rightarrow> fl \<Rightarrow> fl" where
  "fl_sub mx x y = fl_add mx x (fl_neg y)"

text \<open>The sign of a product or quotient with an infinite operand.\<close>

definition signed_inf :: "bool \<Rightarrow> fl" where
  "signed_inf positive = (if positive then PosInf else NegInf)"

fun is_positive :: "fl \<Rightarrow> bool" where
  "is_positive (Finite a) = (0 < a)"
| "is_positive PosInf = True"
| "is_positive NegInf = False"
| "is_positive NaN = False"

fun fl_mul :: "real \<Rightarrow> fl \<Rightarrow> fl \<Rightarrow> fl" where
  "fl_mul mx NaN y = NaN"
| "fl_mul mx x NaN = NaN"
| "fl_mul mx (Finite a) (Finite b) = overflow mx (a * b)"
| "fl_mul mx (Finite a) y = (if a = 0 then NaN else signed_inf (is_positive (Finite a) = is_positive y))"
| "fl_mul mx x (Finite b) = (if b = 0 then NaN else signed_inf (is_positive x = is_positive (Finite b)))"
| "fl_mul mx x y = signed_inf (is_positive x = is_positive y)"

text \<open>
  Division: a finite value over an infinity is zero, an infinity over an infinity and
  zero over zero are NaN, and a non-zero value over zero is an infinity.
\<close>

fun fl_div :: "real \<Rightarrow> fl \<Rightarrow> fl \<Rightarrow> fl" where
  "fl_div mx NaN y = NaN"
| "fl_div mx x NaN = NaN"
| "fl_div mx (Finite a) (Finite b) =
     (if b = 0 then (if a = 0 then NaN else signed_inf (0 < a)) else overflow mx (a / b))"
| "fl_div mx (Finite a) y = Finite 0"
| "fl_div mx x (Finite b) = signed_inf (is_positive x = (0 \<le> b))"
| "fl_div mx x y = NaN"

fun fl_sqrt :: "fl \<Rightarrow> fl" where
  "fl_sqrt (Finite a) = (if a < 0 then NaN else Finite (sqrt a))"
| "fl_sqrt PosInf = PosInf"
| "fl_sqrt NegInf = NaN"
| "fl_sqrt NaN = NaN"

text \<open>\<^verbatim>\<open>np.maximum\<close> returns NaN when one of its operands is NaN.\<close>

fun fl_maximum :: "fl \<Rightarrow> fl \<Rightarrow> fl" where
  "fl_maximum NaN y = NaN"
| "fl_maximum x NaN = NaN"
| "fl_maximum (Finite a) (Finite b) = Finite (max a b)"
| "fl_maximum PosInf y = PosInf"
| "fl_maximum x PosInf = PosInf"
| "fl_maximum NegInf y = y"
| "fl_maximum x NegInf = x"

text \<open>The conversion of a 64-bit result to a 32-bit float.\<close>

fun to_f32 :: "fl \<Rightarrow> fl" where
  "to_f32 (Finite a) = overflow f32_max a"
| "to_f32 x = x"

text \<open>
  \<^verbatim>\<open>uniform_filter\<close> on 32-bit floats. One line of an axis is extended by the nearest
  sample and filtered in 64-bit arithmetic with a running sum: the sum of the first
  window, then for each further output the sum plus the sample that enters the window
  minus the sample that leaves it. Each output is the running sum divided by the size,
  converted to 32 bits. \<open>extended line n sz t\<close> is entry \<open>t\<close> of the extended line.
\<close>

definition extended :: "(nat \<Rightarrow> fl) \<Rightarrow> nat \<Rightarrow> nat \<Rightarrow> nat \<Rightarrow> fl" where
  "extended line n sz t = line (clamp_index n (int t - int (sz div 2)))"

fun running_sum :: "(nat \<Rightarrow> fl) \<Rightarrow> nat \<Rightarrow> nat \<Rightarrow> fl" where
  "running_sum ext sz 0 = fold (\<lambda>t tmp. fl_add f64_max tmp (ext t)) [0..<sz] (Finite 0)"
| "running_sum ext sz (Suc l) =
     fl_add f64_max (running_sum ext sz l) (fl_sub f64_max (ext (l + sz)) (ext l))"

definition uniform1_f32 :: "(nat \<Rightarrow> fl) \<Rightarrow> nat \<Rightarrow> nat \<Rightarrow> nat \<Rightarrow> fl" where
  "uniform1_f32 line n sz i =
     to_f32 (fl_div f64_max (running_sum (extended line n sz) sz i) (Finite (real sz)))"

definition filter_axis0_f32 :: "nat \<Rightarrow> fl ndarray \<Rightarrow> fl ndarray" where
  "filter_axis0_f32 sz a =
     tabulate3 (shape a) (\<lambda>i j k. uniform1_f32 (\<lambda>t. sample a t j k) (extent (shape a) 0) sz i)"

definition filter_axis1_f32 :: "nat \<Rightarrow> fl ndarray \<Rightarrow> fl ndarray" where
  "filter_axis1_f32 sz a =
     tabulate3 (shape a) (\<lambda>i j k. uniform1_f32 (\<lambda>t. sample a i t k) (extent (shape a) 1) sz j)"

definition filter_axis2_f32 :: "nat \<Rightarrow> fl ndarray \<Rightarrow> fl ndarray" where
  "filter_axis2_f32 sz a =
     tabulate3 (shape a) (\<lambda>i j k. uniform1_f32 (\<lambda>t. sample a i j t) (extent (shape a) 2) sz k)"

definition uniform_filter_f32 :: "fl ndarray \<Rightarrow> int \<times> int \<times> int \<Rightarrow> fl ndarray" where
  "uniform_filter_f32 input sz =
     (case sz of (s0, s1, s2) \<Rightarrow>
        (let a0 = (if s0 > 1 then filter_axis0_f32 (nat s0) input else input);
             a1 = (if s1 > 1 then filter_axis1_f32 (nat s1) a0 else a0)
         in if s2 > 1 then filter_axis2_f32 (nat s2) a1 else a1))"

text \<open>
  The branch of the z-window normalisation, statement by statement as \<open>z_normalize\<close>,
  on 32-bit floats. \<^verbatim>\<open>normalize_volume\<close> with the mode \<^verbatim>\<open>z\<close> returns what this branch
  returns on the copy of its input.
\<close>

definition z_normalize_f32 :: "fl ndarray \<Rightarrow> int \<Rightarrow> fl \<Rightarrow> error + fl ndarray" where
  "z_normalize_f32 result z_window eps =
     (let z_window = (if z_window mod 2 = 0 then z_window + 1 else z_window);
          pad_z = z_window div 2
      in case np_pad_reflect result pad_z of
           Inl e \<Rightarrow> Inl e
         | Inr padded \<Rightarrow>
             (let local_mean =
                    slice_axis2 (uniform_filter_f32 padded (1, 1, z_window)) pad_z (- pad_z);
                  padded_sq = map_samples (\<lambda>x. fl_mul f32_max x x) padded;
                  local_mean_sq =
                    slice_axis2 (uniform_filter_f32 padded_sq (1, 1, z_window)) pad_z (- pad_z);
                  local_var =
                    zip_samples (\<lambda>q m. fl_sub f32_max q (fl_mul f32_max m m))
                      local_mean_sq local_mean;
                  local_std =
                    map_samples (\<lambda>v. fl_add f32_max (fl_sqrt (fl_maximum v (Finite 0))) eps)
                      local_var
              in case broadcast2 (fl_sub f32_max) result local_mean of
                   Inl e \<Rightarrow> Inl e
                 | Inr centred \<Rightarrow> broadcast2 (fl_div f32_max) centred local_std))"

subsection \<open>\<^verbatim>\<open>coherence_3d\<close>\<close>

text \<open>
  Modelled from the spec: the end of the last statement of \<^verbatim>\<open>coherence_3d\<close>. The source
  file stops in the middle of that statement, after
  \<^verbatim>\<open>coherence = (sum_vals ** 2) / (n_samples\<close>. The spec gives the quotient as
  \<^verbatim>\<open>S1^2 / (N*S2 + eps)\<close>, so the denominator is completed to
  \<^verbatim>\<open>n_samples * sum_sq_vals + eps\<close>, and the quotient is what the function returns.
\<close>

definition coherence_denominator :: "int \<Rightarrow> real \<Rightarrow> real \<Rightarrow> real" where
  "coherence_denominator n_samples sum_sq eps = real_of_int n_samples * sum_sq + eps"

definition coherence_3d :: "real ndarray \<Rightarrow> int \<times> int \<times> int \<Rightarrow> real ndarray" where
  "coherence_3d data patch_size =
     (case patch_size of (py, px, pz) \<Rightarrow>
        (let sum_vals = uniform_filter data (py, px, pz);
             sum_sq_vals = uniform_filter (map_samples (\<lambda>x. x\<^sup>2) data) (py, px, pz);
             n_samples = py * px * pz;
             eps = 1 / 10 ^ 6
         in zip_samples (\<lambda>s q. s\<^sup>2 / coherence_denominator n_samples q eps)
              sum_vals sum_sq_vals))"

text \<open>
  The coherence as the spec words it, to compare with the function: S1 is the sum of the
  samples of the window of size \<open>py \<times> px \<times> pz\<close> centred at a position, S2 the sum of their
  squares, with the nearest sample standing for a position outside the volume.
\<close>

definition window_sum ::
  "(real \<Rightarrow> real) \<Rightarrow> real ndarray \<Rightarrow> int \<times> int \<times> int \<Rightarrow> nat \<Rightarrow> nat \<Rightarrow> nat \<Rightarrow> real" where
  "window_sum g data patch_size i j k =
     (case patch_size of (py, px, pz) \<Rightarrow>
        (\<Sum>a\<leftarrow>[0..<nat py]. \<Sum>b\<leftarrow>[0..<nat px]. \<Sum>c\<leftarrow>[0..<nat pz].
           g (sample data (clamp_index (extent (shape data) 0) (int i - py div 2 + int a))
                          (clamp_index (extent (shape data) 1) (int j - px div 2 + int b))
                          (clamp_index (extent (shape data) 2) (int k - pz div 2 + int c)))))"

definition semblance_spec :: "real ndarray \<Rightarrow> int \<times> int \<times> int \<Rightarrow> nat \<Rightarrow> nat \<Rightarrow> nat \<Rightarrow> real" where
  "semblance_spec data patch_size i j k =
     (case patch_size of (py, px, pz) \<Rightarrow>
        (window_sum (\<lambda>x. x) data patch_size i j k)\<^sup>2 /
        (real_of_int (py * px * pz) * window_sum (\<lambda>x. x\<^sup>2) data patch_size i j k + 1 / 10 ^ 6))"

section \<open>Properties of the parsers\<close>

subsection \<open>Printing an integer and reading it back\<close>

lemma is_digit_char_of: "d < 10 \<Longrightarrow> is_digit (char_of (48 + (d::nat)))"
  by (simp add: is_digit_def Let_def of_char_of)

lemma digit_val_char_of: "d < 10 \<Longrightarrow> digit_val (char_of (48 + d)) = d"
  by (simp add: digit_val_def of_char_of)

lemma is_digit_not_space: "is_digit c \<Longrightarrow> \<not> is_space c"
  by (auto simp: is_digit_def is_space_def Let_def)

lemma is_digit_not_mark:
  "is_digit c \<Longrightarrow> c \<noteq> CHR '':'' \<and> c \<noteq> CHR '','' \<and> c \<noteq> CHR ''-'' \<and> c \<noteq> CHR ''+''"
  by (auto simp: is_digit_def Let_def)

lemma str_nat_digits: "list_all is_digit (str_nat n)"
proof (induction n rule: str_nat.induct)
  case (1 n)
  show ?case
  proof (cases "n < 10")
    case True
    then show ?thesis by (subst str_nat.simps) (simp add: is_digit_char_of)
  next
    case False
    with 1 show ?thesis by (subst str_nat.simps) (simp add: is_digit_char_of)
  qed
qed

lemma str_nat_nonempty: "str_nat n \<noteq> []"
  by (subst str_nat.simps) simp

lemma str_nat_hd: "is_digit (hd (str_nat n))"
  using str_nat_digits [of n] str_nat_nonempty [of n] by (cases "str_nat n") auto

lemma str_nat_last: "is_digit (last (str_nat n))"
  using str_nat_digits [of n] str_nat_nonempty [of n] by (simp add: list_all_iff)

lemma digits_tail_digits:
  "list_all is_digit cs \<Longrightarrow>
   digits_tail acc cs = Some (foldl (\<lambda>a c. 10 * a + digit_val c) acc cs)"
  by (induction acc cs rule: digits_tail.induct) simp_all

lemma foldl_str_nat: "foldl (\<lambda>a c. 10 * a + digit_val c) 0 (str_nat n) = n"
proof (induction n rule: str_nat.induct)
  case (1 n)
  show ?case
  proof (cases "n < 10")
    case True
    then show ?thesis by (subst str_nat.simps) (simp add: digit_val_char_of)
  next
    case False
    with 1 have "foldl (\<lambda>a c. 10 * a + digit_val c) 0 (str_nat (n div 10)) = n div 10"
      by simp
    with False show ?thesis by (subst str_nat.simps) (simp add: digit_val_char_of)
  qed
qed

lemma digits_value_str_nat: "digits_value (str_nat n) = Some n"
proof (cases "str_nat n")
  case Nil
  then show ?thesis by (simp add: str_nat_nonempty)
next
  case (Cons c cs)
  have all: "list_all is_digit (c # cs)"
    using str_nat_digits [of n] Cons by simp
  have "foldl (\<lambda>a c. 10 * a + digit_val c) 0 (c # cs) = n"
    using foldl_str_nat [of n] Cons by simp
  then have "foldl (\<lambda>a c. 10 * a + digit_val c) (digit_val c) cs = n"
    by simp
  with all show ?thesis
    by (simp add: Cons digits_value_def digits_tail_digits)
qed

lemma strip_unchanged:
  assumes "s \<noteq> []" and "\<not> is_space (hd s)" and "\<not> is_space (last s)"
  shows "strip s = s"
proof -
  have keep: "dropWhile is_space xs = xs" if "xs \<noteq> []" "\<not> is_space (hd xs)" for xs
    using that by (cases xs) auto
  have "dropWhile is_space (rev s) = rev s"
    using assms by (intro keep) (auto simp: hd_rev)
  then show ?thesis
    using assms by (simp add: strip_def keep)
qed

lemma py_int_str_int: "py_int (str_int a) = Inr a"
proof (cases "a < 0")
  case True
  have "strip (str_int a) = str_int a"
    using True str_nat_last [of "nat (- a)"] str_nat_nonempty [of "nat (- a)"]
    by (intro strip_unchanged) (auto simp: str_int_def is_space_def dest: is_digit_not_space)
  with True show ?thesis
    by (simp add: py_int_def str_int_def digits_value_str_nat)
next
  case False
  have "strip (str_int a) = str_int a"
    using False str_nat_last [of "nat a"] str_nat_hd [of "nat a"] str_nat_nonempty [of "nat a"]
    by (intro strip_unchanged) (auto simp: str_int_def dest: is_digit_not_space)
  moreover have "hd (str_nat (nat a)) \<noteq> CHR ''-''" "hd (str_nat (nat a)) \<noteq> CHR ''+''"
    using str_nat_hd [of "nat a"] is_digit_not_mark by blast+
  ultimately show ?thesis
    using False by (simp add: py_int_def str_int_def digits_value_str_nat str_nat_nonempty)
qed

lemma str_int_no_separator: "c \<in> set (str_int a) \<Longrightarrow> c \<noteq> CHR '':'' \<and> c \<noteq> CHR '',''"
  using str_nat_digits [of "nat a"] str_nat_digits [of "nat (- a)"] is_digit_not_mark
  by (auto simp: str_int_def list_all_iff split: if_splits)

lemma split_on_absent: "sep \<notin> set s \<Longrightarrow> split_on sep s = [s]"
  by (induction s) auto

lemma split_on_first: "sep \<notin> set s \<Longrightarrow> split_on sep (s @ sep # t) = s # split_on sep t"
  by (induction s) auto

lemma parse_range_printed:
  "parse_range (str_int a @ '':'' @ str_int b) =
     (if a < b then Inr (a, b) else Inl (ValueError ''Invalid range''))"
proof -
  have a: "CHR '':'' \<notin> set (str_int a)" and b: "CHR '':'' \<notin> set (str_int b)"
    using str_int_no_separator by blast+
  have "split_on CHR '':'' (str_int a @ '':'' @ str_int b) = [str_int a, str_int b]"
    using split_on_first [OF a] split_on_absent [OF b] by simp
  then show ?thesis
    by (simp add: parse_range_def unpack2_def numeral_2_eq_2 py_int_str_int)
qed

text \<open>
  The separators 28 to 31 are no whitespace for \<^verbatim>\<open>int\<close>, so a string that holds one is
  rejected; the no-break space is removed.
\<close>

lemma py_int_whitespace_examples:
  "parse_patch (''3,3,3'' @ [CHR 0x1F]) = Inl (ValueError ''Invalid patch format'') \<and>
   parse_range (CHR 0x1C # ''1:2'') = Inl (ValueError ''invalid literal for int() with base 10'') \<and>
   py_int [CHR 0xA0, CHR ''5''] = Inr 5"
  by code_simp

subsection \<open>\<^verbatim>\<open>parse_patch\<close>\<close>

lemma ensure_odd_small: "(ensure_odd p < 3) = (p \<le> 1)"
  unfolding ensure_odd_def by presburger

lemma ensure_odd_odd: "odd (ensure_odd p)"
  unfolding ensure_odd_def by presburger

text \<open>
  C8. \<^verbatim>\<open>parse_patch("4,4,4")\<close> returns (5, 5, 5), each even value raised to the next odd
  one, and \<^verbatim>\<open>parse_patch("1,1,1")\<close> raises, its values being below the minimum of 3.
\<close>

theorem parse_patch_examples:
  "parse_patch ''4,4,4'' = Inr (5, 5, 5) \<and>
   parse_patch ''1,1,1'' = Inl (ValueError ''Invalid patch format'')"
  by code_simp

text \<open>
  C4, as the claim states it, fails: the component 2 is below 3, and the patch is
  accepted, because the values are made odd before they are compared with 3.
\<close>

theorem parse_patch_accepts_two:
  "unpack3 (split_on CHR '','' ''2,5,5'') = Inr (2, 5, 5) \<and> parse_patch ''2,5,5'' = Inr (3, 5, 5)"
  by code_simp

text \<open>
  C4, amended. A patch string is rejected when it does not hold three integers or when
  one of them is at most 1. Otherwise it is accepted and each component is returned
  raised to the next odd value, so that 2 is accepted as 3. Every component that
  \<^verbatim>\<open>parse_patch\<close> returns is odd and at least 3.
\<close>

theorem parse_patch_components:
  "parse_patch s =
     (case unpack3 (split_on CHR '','' s) of
        Inl e \<Rightarrow> Inl (ValueError ''Invalid patch format'')
      | Inr (a, b, c) \<Rightarrow>
          if a \<le> 1 \<or> b \<le> 1 \<or> c \<le> 1 then Inl (ValueError ''Invalid patch format'')
          else Inr (ensure_odd a, ensure_odd b, ensure_odd c)) \<and>
   (\<forall>py px pz. parse_patch s = Inr (py, px, pz) \<longrightarrow>
      3 \<le> py \<and> 3 \<le> px \<and> 3 \<le> pz \<and> odd py \<and> odd px \<and> odd pz)"
proof -
  have eq: "parse_patch s =
     (case unpack3 (split_on CHR '','' s) of
        Inl e \<Rightarrow> Inl (ValueError ''Invalid patch format'')
      | Inr (a, b, c) \<Rightarrow>
          if a \<le> 1 \<or> b \<le> 1 \<or> c \<le> 1 then Inl (ValueError ''Invalid patch format'')
          else Inr (ensure_odd a, ensure_odd b, ensure_odd c))"
    by (simp add: parse_patch_def parse_patch_body_def ensure_odd_small split: sum.split)
  have "3 \<le> py \<and> 3 \<le> px \<and> 3 \<le> pz \<and> odd py \<and> odd px \<and> odd pz"
    if "parse_patch s = Inr (py, px, pz)" for py px pz
  proof -
    from that eq obtain a b c where
      "\<not> (a \<le> 1 \<or> b \<le> 1 \<or> c \<le> 1)" "py = ensure_odd a" "px = ensure_odd b" "pz = ensure_odd c"
      by (auto split: sum.splits if_splits)
    then show ?thesis
      using ensure_odd_small [of a] ensure_odd_small [of b] ensure_odd_small [of c]
      by (simp add: ensure_odd_odd)
  qed
  with eq show ?thesis by blast
qed

theorem parse_patch_components_witness:
  "parse_patch ''2,5,8'' = Inr (3, 5, 9) \<and>
   (3::int) \<le> 3 \<and> (3::int) \<le> 5 \<and> (3::int) \<le> 9 \<and> odd (3::int) \<and> odd (5::int) \<and> odd (9::int)"
proof -
  have e: "parse_patch ''2,5,8'' = Inr (3, 5, 9)"
    by code_simp
  from parse_patch_components [of "''2,5,8''"] e show ?thesis
    by blast
qed

section \<open>Properties of the normaliser\<close>

text \<open>
  C3, as the claim states it, fails: a mode outside the four of the spec is not rejected.
  The function compares the mode with the strings it knows and does nothing for any
  other, so the volume comes back unchanged.
\<close>

theorem normalize_unknown_mode_returns:
  "''median'' \<notin> {''none'', ''trace'', ''z-window'', ''both''} \<and>
   normalize_volume \<lparr>shape = (1, 1, 2), vals = [[[1, 2]]]\<rparr> ''median'' 9 (1 / 10 ^ 6) =
     Inr \<lparr>shape = (1, 1, 2), vals = [[[1, 2]]]\<rparr>"
  by (simp add: normalize_volume_def)

text \<open>
  C3, amended. \<^verbatim>\<open>normalize_volume\<close> acts on the mode strings \<^verbatim>\<open>none\<close>, \<^verbatim>\<open>trace\<close>,
  \<^verbatim>\<open>z\<close> and \<^verbatim>\<open>both\<close>. For every other mode string, \<^verbatim>\<open>z-window\<close> among them, it raises
  no error and returns the input volume unchanged.
\<close>

theorem normalize_unknown_mode:
  "mode \<notin> {''none'', ''trace'', ''z'', ''both''} \<Longrightarrow>
   normalize_volume data mode z_window eps = Inr data"
  by (simp add: normalize_volume_def)

theorem normalize_unknown_mode_witness:
  "''z-window'' \<notin> {''none'', ''trace'', ''z'', ''both''} \<and>
   normalize_volume \<lparr>shape = (1, 1, 2), vals = [[[1, 2]]]\<rparr> ''z-window'' 9 (1 / 10 ^ 6) =
     Inr \<lparr>shape = (1, 1, 2), vals = [[[1, 2]]]\<rparr>"
proof -
  have h: "''z-window'' \<notin> {''none'', ''trace'', ''z'', ''both''}"
    by simp
  from normalize_unknown_mode [OF h] h show ?thesis
    by blast
qed

text \<open>
  C5. The mode \<^verbatim>\<open>both\<close> is the z-window normalisation, which the code calls \<^verbatim>\<open>z\<close>,
  applied to the result of the mode \<^verbatim>\<open>trace\<close>, with the same window and the same
  epsilon. The trace normalisation itself never raises.
\<close>

theorem normalize_both_is_trace_then_z:
  "normalize_volume data ''trace'' z_window eps = Inr (trace_normalize data eps) \<and>
   normalize_volume data ''both'' z_window eps =
     (case normalize_volume data ''trace'' z_window eps of
        Inl e \<Rightarrow> Inl e
      | Inr normalized \<Rightarrow> normalize_volume normalized ''z'' z_window eps)"
  by (simp add: normalize_volume_def)

text \<open>
  The divisor of the z-window normalisation, in exact arithmetic: the variance is
  clamped at 0 before the root is taken, so every sample of the divisor is at least
  \<open>eps\<close>.
\<close>

lemma z_normalize_divisor:
  "0 \<le> eps \<Longrightarrow>
   list_all (list_all (list_all (\<lambda>s. eps \<le> s)))
     (vals (map_samples (\<lambda>v. sqrt (max v 0) + eps) local_var))"
  by (simp add: map_samples_def list_all_iff)

section \<open>Properties of the loader\<close>

subsection \<open>Arrays, slices and the loops of the fallback\<close>

lemma extent_simps [simp]: "extent (n0, n1, n2) 0 = n0" "extent (n0, n1, n2) (Suc 0) = n1" "extent (n0, n1, n2) 1 = n1" "extent (n0, n1, n2) 2 = n2"
  by (simp_all add: extent_def numeral_2_eq_2)

lemma shape_tabulate3 [simp]: "shape (tabulate3 sh f) = sh"
  by (cases sh) (simp add: tabulate3_def)

lemma vals_tabulate3:
  "vals (tabulate3 (n0, n1, n2) f) = map (\<lambda>i. map (\<lambda>j. map (f i j) [0..<n2]) [0..<n1]) [0..<n0]"
  by (simp add: tabulate3_def)

lemma sample_tabulate3 [simp]:
  "i < n0 \<Longrightarrow> j < n1 \<Longrightarrow> k < n2 \<Longrightarrow> sample (tabulate3 (n0, n1, n2) f) i j k = f i j k"
  by (simp add: sample_def vals_tabulate3)

lemma tabulate3_cong:
  "(\<And>i j k. i < n0 \<Longrightarrow> j < n1 \<Longrightarrow> k < n2 \<Longrightarrow> f i j k = g i j k) \<Longrightarrow>
   tabulate3 (n0, n1, n2) f = tabulate3 (n0, n1, n2) g"
  by (simp add: tabulate3_def)

lemma upto_as_map: "[a..a + int n - 1] = map (\<lambda>i. a + int i) [0..<n]"
proof (induction n)
  case 0
  then show ?case by simp
next
  case (Suc n)
  have "[a..a + int (Suc n) - 1] = [a..a + int n - 1] @ [a + int n]"
    using upto_rec2 [of a "a + int n"] by simp
  with Suc show ?case by simp
qed

lemma enumerate_range:
  "a \<le> b \<Longrightarrow> enumerate 0 [a..b - 1] = map (\<lambda>i. (i, a + int i)) [0..<nat (b - a)]"
  using upto_as_map [of a "nat (b - a)"] enumerate_map_upt [of 0 "\<lambda>i. a + int i" "nat (b - a)"]
  by simp

lemma clip_inside: "0 \<le> a \<Longrightarrow> a \<le> int n \<Longrightarrow> clip n a = nat a"
  by (simp add: clip_def)

lemma slice_len_inside: "0 \<le> a \<Longrightarrow> a \<le> b \<Longrightarrow> b \<le> int n \<Longrightarrow> slice_len n a b = nat (b - a)"
  by (simp add: slice_len_def clip_inside nat_diff_distrib)

lemma py_slice_map_upt:
  assumes "0 \<le> a" "a \<le> b" "b \<le> int n"
  shows "py_slice (map g [0..<n]) a b = map (\<lambda>i. g (nat a + i)) [0..<nat (b - a)]"
proof -
  have "py_slice (map g [0..<n]) a b = take (nat (b - a)) (map g [nat a..<n])"
    using assms by (simp add: py_slice_def slice_len_inside clip_inside drop_map)
  also have "\<dots> = map g [nat a..<nat b]"
    using assms by (simp add: take_map nat_diff_distrib min_def) 
  also have "\<dots> = map (\<lambda>i. g (nat a + i)) [0..<nat (b - a)]"
  proof -
    have "[nat a..<nat b] = map (\<lambda>i. i + nat a) [0..<nat b - nat a]"
      using assms map_add_upt [of "nat a" "nat b - nat a"] by simp
    then have "map g [nat a..<nat b] = map g (map (\<lambda>i. i + nat a) [0..<nat b - nat a])"
      by simp
    then show ?thesis using assms by (simp add: nat_diff_distrib o_def add.commute)
  qed
  finally show ?thesis .
qed

lemma length_py_slice: "length (py_slice xs a b) = slice_len (length xs) a b"
  by (auto simp: py_slice_def slice_len_def clip_def)

lemma fill_prefix:
  "j0 \<le> m \<Longrightarrow> length row = m \<Longrightarrow>
   fold (\<lambda>j r. r[j := g j]) [j0..<m] row = take j0 row @ map g [j0..<m]"
proof (induction "m - j0" arbitrary: j0 row)
  case 0
  then show ?case by simp
next
  case (Suc d)
  then have lt: "j0 < m" by simp
  have "fold (\<lambda>j r. r[j := g j]) [j0..<m] row = fold (\<lambda>j r. r[j := g j]) [Suc j0..<m] (row[j0 := g j0])"
    using lt by (simp add: upt_conv_Cons)
  also have "\<dots> = take (Suc j0) (row[j0 := g j0]) @ map g [Suc j0..<m]"
    using Suc lt by (intro Suc.hyps(1)) auto
  also have "\<dots> = take j0 row @ map g [j0..<m]"
    using lt Suc.prems by (simp add: take_Suc_conv_app_nth upt_conv_Cons)
  finally show ?case .
qed

lemma fill_all: "length row = m \<Longrightarrow> fold (\<lambda>j r. r[j := g j]) [0..<m] row = map g [0..<m]"
  using fill_prefix [of 0 m row g] by simp

lemma shape_put_trace [simp]: "shape (put_trace d i j v) = shape d"
  by (simp add: put_trace_def)

lemma trace_index_bound:
  "il < n0 \<Longrightarrow> xl < n1 \<Longrightarrow> il * n1 + xl < n0 * (n1::nat)"
proof -
  assume "il < n0" "xl < n1"
  then have "il * n1 + xl < Suc il * n1" by simp
  also have "\<dots> \<le> n0 * n1" using \<open>il < n0\<close> by (intro mult_le_mono1) simp
  finally show ?thesis .
qed

lemma trace_inside:
  "il < num_ilines f \<Longrightarrow> xl < num_xlines f \<Longrightarrow>
   trace f (int il * int (num_xlines f) + int xl) =
     Inr (map (raw f (il * num_xlines f + xl)) [0..<num_samples f])"
proof -
  assume a: "il < num_ilines f" "xl < num_xlines f"
  have e: "int il * int (num_xlines f) + int xl = int (il * num_xlines f + xl)" by simp
  show ?thesis
    unfolding e trace_def Let_def using trace_index_bound [OF a] 
    by (simp del: of_nat_mult of_nat_add)
qed

lemma fill_xlines_fold:
  assumes "il < num_ilines f" "list_all (\<lambda>j. A1 + j < num_xlines f) js"
    and "extent (shape d) 2 = slice_len (num_samples f) (fst zr) (snd zr)"
  shows "fill_xlines f zr i (int il) (map (\<lambda>j. (j, int A1 + int j)) js) d =
           Inr (fold (\<lambda>j d. put_trace d i j
                  (py_slice (map (raw f (il * num_xlines f + (A1 + j))) [0..<num_samples f])
                     (fst zr) (snd zr))) js d)"
  using assms
proof (induction js arbitrary: d)
  case Nil
  then show ?case by simp
next
  case (Cons j js)
  have t: "trace f (int il * int (num_xlines f) + (int A1 + int j)) =
             Inr (map (raw f (il * num_xlines f + (A1 + j))) [0..<num_samples f])"
    using trace_inside [of il f "A1 + j"] Cons.prems by simp
  show ?case
    using Cons.prems
    by (simp add: t set_trace_def length_py_slice Cons.IH)
qed

lemma put_trace_fold:
  "i < length (vals d) \<Longrightarrow>
   fold (\<lambda>j d. put_trace d i j (v j)) js d =
     d\<lparr>vals := (vals d)[i := fold (\<lambda>j r. r[j := v j]) js (vals d ! i)]\<rparr>"
proof (induction js arbitrary: d)
  case Nil
  then show ?case by simp
next
  case (Cons j js)
  then show ?case by (simp add: put_trace_def)
qed

lemma fill_row:
  assumes "il < num_ilines f" "A1 + m1 \<le> num_xlines f"
    and "extent (shape d) 2 = slice_len (num_samples f) (fst zr) (snd zr)"
    and "i < length (vals d)" "length (vals d ! i) = m1"
  shows "fill_xlines f zr i (int il) (map (\<lambda>j. (j, int A1 + int j)) [0..<m1]) d =
           Inr (d\<lparr>vals := (vals d)[i := map (\<lambda>j.
                  py_slice (map (raw f (il * num_xlines f + (A1 + j))) [0..<num_samples f])
                     (fst zr) (snd zr)) [0..<m1]]\<rparr>)"
proof -
  have "list_all (\<lambda>j. A1 + j < num_xlines f) [0..<m1]"
    using assms(2) by (simp add: list_all_iff)
  then show ?thesis
    using assms by (simp add: fill_xlines_fold put_trace_fold fill_all)
qed

lemma fill_ilines_fold:
  assumes "list_all (\<lambda>i. A0 + i < num_ilines f \<and> i < length (vals d)) is"
    and "0 \<le> fst xr" "fst xr \<le> snd xr" "snd xr \<le> int (num_xlines f)"
    and "extent (shape d) 2 = slice_len (num_samples f) (fst zr) (snd zr)"
    and "list_all (\<lambda>row. length row = nat (snd xr - fst xr)) (vals d)"
  shows "fill_ilines f xr zr (map (\<lambda>i. (i, int A0 + int i)) is) d =
           Inr (d\<lparr>vals := fold (\<lambda>i rows. rows[i := map (\<lambda>j.
                  py_slice (map (raw f ((A0 + i) * num_xlines f + (nat (fst xr) + j)))
                              [0..<num_samples f]) (fst zr) (snd zr))
                  [0..<nat (snd xr - fst xr)]]) is (vals d)\<rparr>)"
  using assms(1,5,6)
proof (induction "is" arbitrary: d)
  case Nil
  then show ?case by simp
next
  case (Cons i "is")
  let ?m1 = "nat (snd xr - fst xr)"
  let ?row = "map (\<lambda>j. py_slice (map (raw f ((A0 + i) * num_xlines f + (nat (fst xr) + j)))
                              [0..<num_samples f]) (fst zr) (snd zr)) [0..<?m1]"
  let ?d' = "d\<lparr>vals := (vals d)[i := ?row]\<rparr>"
  have en: "enumerate 0 [fst xr..snd xr - 1] = map (\<lambda>j. (j, int (nat (fst xr)) + int j)) [0..<?m1]"
    using enumerate_range [of "fst xr" "snd xr"] assms(2,3) by simp
  have i: "i < length (vals d)" "A0 + i < num_ilines f" using Cons.prems(1) by simp_all
  have len: "length (vals d ! i) = ?m1"
    using Cons.prems(3) i by (simp add: list_all_length)
  have "nat (fst xr) + ?m1 \<le> num_xlines f" using assms(2,3,4) by linarith
  then have step: "fill_xlines f zr i (int (A0 + i)) (enumerate 0 [fst xr..snd xr - 1]) d = Inr ?d'"
    unfolding en using fill_row [of "A0 + i" f "nat (fst xr)" ?m1 d zr i] i len Cons.prems(2)
    by simp
  have inv: "list_all (\<lambda>i. A0 + i < num_ilines f \<and> i < length (vals ?d')) is"
       "extent (shape ?d') 2 = slice_len (num_samples f) (fst zr) (snd zr)"
       "list_all (\<lambda>row. length row = ?m1) (vals ?d')"
    using Cons.prems by (auto simp: list_all_iff dest!: set_update_subset_insert [THEN subsetD])
  have "fill_ilines f xr zr (map (\<lambda>i. (i, int A0 + int i)) (i # is)) d =
          fill_ilines f xr zr (map (\<lambda>i. (i, int A0 + int i)) is) ?d'"
    using step by (simp del: of_nat_add add: of_nat_add [symmetric])
  also note Cons.IH [OF inv]
  finally show ?case by simp
qed

lemma crop_cube:
  assumes "inside (num_ilines f) ir" "inside (num_xlines f) xr" "inside (num_samples f) zr"
  shows "crop (cube f) ir xr zr =
           \<lparr>shape = (nat (snd ir - fst ir), nat (snd xr - fst xr), nat (snd zr - fst zr)),
            vals = map (\<lambda>i. map (\<lambda>j.
                     py_slice (map (raw f ((nat (fst ir) + i) * num_xlines f + (nat (fst xr) + j)))
                                 [0..<num_samples f]) (fst zr) (snd zr))
                     [0..<nat (snd xr - fst xr)]) [0..<nat (snd ir - fst ir)]\<rparr>"
  using assms
  by (simp add: crop_def cube_def inside_def slice_len_inside vals_tabulate3 py_slice_map_upt o_def)

lemma trace_by_trace_crop:
  assumes "inside (num_ilines f) ir" "inside (num_xlines f) xr" "inside (num_samples f) zr"
  shows "trace_by_trace f ir xr zr = Inr (crop (cube f) ir xr zr)"
proof -
  let ?m0 = "nat (snd ir - fst ir)" and ?m1 = "nat (snd xr - fst xr)"
  let ?m2 = "nat (snd zr - fst zr)"
  let ?d = "tabulate3 (?m0, ?m1, ?m2) (\<lambda>i j k. 0)"
  have z: "zeros (snd ir - fst ir, snd xr - fst xr, snd zr - fst zr) = Inr ?d"
    using assms by (simp add: zeros_def inside_def)
  have en: "enumerate 0 [fst ir..snd ir - 1] = map (\<lambda>i. (i, int (nat (fst ir)) + int i)) [0..<?m0]"
    using enumerate_range [of "fst ir" "snd ir"] assms(1) by (simp add: inside_def)
  have c1: "list_all (\<lambda>i. nat (fst ir) + i < num_ilines f \<and> i < length (vals ?d)) [0..<?m0]"
    using assms(1) by (auto simp: list_all_iff inside_def vals_tabulate3)
  have c2: "extent (shape ?d) 2 = slice_len (num_samples f) (fst zr) (snd zr)"
    using assms(3) by (simp add: inside_def slice_len_inside)
  have c3: "list_all (\<lambda>row. length row = ?m1) (vals ?d)"
    by (simp add: list_all_iff vals_tabulate3)
  have "trace_by_trace f ir xr zr =
          fill_ilines f xr zr (map (\<lambda>i. (i, int (nat (fst ir)) + int i)) [0..<?m0]) ?d"
    by (simp add: trace_by_trace_def z en)
  also have "\<dots> = Inr (?d\<lparr>vals := fold (\<lambda>i rows. rows[i := map (\<lambda>j.
                  py_slice (map (raw f ((nat (fst ir) + i) * num_xlines f + (nat (fst xr) + j)))
                              [0..<num_samples f]) (fst zr) (snd zr))
                  [0..<?m1]]) [0..<?m0] (vals ?d)\<rparr>)"
    using assms(2) by (intro fill_ilines_fold c1 c2 c3) (simp_all add: inside_def)
  also have "\<dots> = Inr (crop (cube f) ir xr zr)"
    by (simp add: crop_cube [OF assms] fill_all vals_tabulate3 tabulate3_def)
  finally show ?thesis .
qed

lemma in_extent_bounds:
  "in_extent n r \<Longrightarrow>
   0 \<le> range_start r \<and> range_start r \<le> range_end r (int n) \<and> range_end r (int n) \<le> int n"
  by (cases r) (auto simp: in_extent_def range_start_def range_end_def)

lemma range_len_eq:
  "in_extent n r \<Longrightarrow> range_len n r = nat (range_end r (int n) - range_start r)"
  by (cases r) (auto simp: in_extent_def range_start_def range_end_def range_len_def)

lemma trace_by_trace_in_extent:
  assumes "in_extent (num_ilines f) ir" "in_extent (num_xlines f) xr" "in_extent (num_samples f) zr"
  shows "trace_by_trace f (range_start ir, range_end ir (int (num_ilines f)))
           (range_start xr, range_end xr (int (num_xlines f)))
           (range_start zr, range_end zr (int (num_samples f))) =
         Inr (crop (cube f) (range_start ir, range_end ir (int (num_ilines f)))
           (range_start xr, range_end xr (int (num_xlines f)))
           (range_start zr, range_end zr (int (num_samples f))))"
  using assms [THEN in_extent_bounds] by (intro trace_by_trace_crop) (simp_all add: inside_def)

lemma crop_cube_shape:
  assumes "inside (num_ilines f) ir" "inside (num_xlines f) xr" "inside (num_samples f) zr"
  shows "shape (crop (cube f) ir xr zr) =
           (nat (snd ir - fst ir), nat (snd xr - fst xr), nat (snd zr - fst zr))"
    and "length (vals (crop (cube f) ir xr zr)) = nat (snd ir - fst ir)"
    and "list_all (\<lambda>plane. length plane = nat (snd xr - fst xr) \<and>
            list_all (\<lambda>tr. length tr = nat (snd zr - fst zr)) plane) (vals (crop (cube f) ir xr zr))"
  using assms
  by (simp_all add: crop_cube [OF assms] list_all_iff length_py_slice slice_len_inside inside_def)

lemma ints_of_error:
  "ints_of ps = Inl e \<Longrightarrow> e = ValueError ''invalid literal for int() with base 10''"
  by (induction ps arbitrary: e) (auto simp: py_int_def Let_def split: sum.splits option.splits)

lemma apply_swap_axes_error:
  "apply_swap_axes sw dm = Inl e \<Longrightarrow> e \<noteq> ValueError ''Crop ranges exceed cube dimensions''"
  by (auto simp: apply_swap_axes_def split: option.splits if_splits sum.splits dest!: ints_of_error)

lemma fill_xlines_error:
  "fill_xlines f zr i il ps d = Inl e \<Longrightarrow> e \<noteq> ValueError ''Crop ranges exceed cube dimensions''"
proof (induction ps arbitrary: d)
  case Nil
  then show ?case by simp
next
  case (Cons p ps)
  then show ?case
    by (cases p) (auto simp: trace_def set_trace_def Let_def split: sum.splits if_splits)
qed

lemma fill_ilines_error:
  "fill_ilines f xr zr qs d = Inl e \<Longrightarrow> e \<noteq> ValueError ''Crop ranges exceed cube dimensions''"
proof (induction qs arbitrary: d)
  case Nil
  then show ?case by simp
next
  case (Cons q qs)
  then show ?case
    by (cases q) (auto split: sum.splits dest: fill_xlines_error)
qed

lemma trace_by_trace_error:
  "trace_by_trace f ir xr zr = Inl e \<Longrightarrow> e \<noteq> ValueError ''Crop ranges exceed cube dimensions''"
  by (auto simp: trace_by_trace_def zeros_def split: sum.splits if_splits dest: fill_ilines_error)

subsection \<open>The two paths of the loader\<close>

text \<open>
  C6 fails on the code. The range \<^verbatim>\<open>-1:2\<close> has its start below its end and its end
  inside a source of three samples, which is all that \<^verbatim>\<open>parse_range\<close> and the check of
  the loader ask of a range. The bulk path slices with it, where the negative start
  counts from the end, and returns a volume with an empty depth axis; the fallback
  allocates \<open>2 - (-1) = 3\<close> samples per trace, cannot store the empty slice of the
  trace there, and raises. The two paths do not return the same volume.
\<close>

theorem fallback_differs_negative_start:
  "parse_range ''-1:2'' = Inr (- 1, 2) \<and>
   map_sum id fst
     (load_segy_cube \<lparr>num_ilines = 3, num_xlines = 2, num_samples = 3, interval = 4000,
        sample_format = 1, raw = (\<lambda>t k. real (10 * t + k))\<rparr>
        None None (Some (- 1, 2)) None True) =
     Inr \<lparr>shape = (3, 2, 0), vals = [[[], []], [[], []], [[], []]]\<rparr> \<and>
   load_segy_cube \<lparr>num_ilines = 3, num_xlines = 2, num_samples = 3, interval = 4000,
        sample_format = 1, raw = (\<lambda>t k. real (10 * t + k))\<rparr>
        None None (Some (- 1, 2)) None False = Inl (ValueError ''could not broadcast input array'')"
  by code_simp

text \<open>
  Where every range selection has \<open>0 \<le> start < end \<le> extent\<close> on its axis (or no
  range is given for the axis), the loader returns the same result on its
  trace-by-trace path as on its bulk path.
\<close>

lemma fallback_equals_bulk:
  assumes "in_extent (num_ilines f) il_range" "in_extent (num_xlines f) xl_range"
    and "in_extent (num_samples f) zs_range"
  shows "load_segy_cube f il_range xl_range zs_range swap_axes False =
         load_segy_cube f il_range xl_range zs_range swap_axes True"
  by (simp add: load_segy_cube_def Let_def trace_by_trace_in_extent [OF assms])

lemma fallback_equals_bulk_example:
  "in_extent 3 (Some (1, 3)) \<and> in_extent 2 None \<and> in_extent 3 (Some (0, 2)) \<and>
   load_segy_cube \<lparr>num_ilines = 3, num_xlines = 2, num_samples = 3, interval = 4000,
        sample_format = 1, raw = (\<lambda>t k. real (10 * t + k))\<rparr>
        (Some (1, 3)) None (Some (0, 2)) None False =
   load_segy_cube \<lparr>num_ilines = 3, num_xlines = 2, num_samples = 3, interval = 4000,
        sample_format = 1, raw = (\<lambda>t k. real (10 * t + k))\<rparr>
        (Some (1, 3)) None (Some (0, 2)) None True \<and>
   map_sum id fst
     (load_segy_cube \<lparr>num_ilines = 3, num_xlines = 2, num_samples = 3, interval = 4000,
        sample_format = 1, raw = (\<lambda>t k. real (10 * t + k))\<rparr>
        (Some (1, 3)) None (Some (0, 2)) None False) =
     Inr \<lparr>shape = (2, 2, 2), vals = [[[20, 21], [30, 31]], [[40, 41], [50, 51]]]\<rparr>"
proof -
  let ?f = "\<lparr>num_ilines = 3, num_xlines = 2, num_samples = 3, interval = 4000,
        sample_format = 1, raw = (\<lambda>t k. real (10 * t + k))\<rparr>"
  have h: "in_extent (num_ilines ?f) (Some (1, 3))" "in_extent (num_xlines ?f) None"
    "in_extent (num_samples ?f) (Some (0, 2))"
    by (simp_all add: in_extent_def)
  have v: "map_sum id fst (load_segy_cube ?f (Some (1, 3)) None (Some (0, 2)) None False) =
     Inr \<lparr>shape = (2, 2, 2), vals = [[[20, 21], [30, 31]], [[40, 41], [50, 51]]]\<rparr>"
    by code_simp
  from fallback_equals_bulk [OF h, of None] h v show ?thesis
    by simp
qed

text \<open>
  C7. With all ranges left out the loader returns a volume of the native shape of the
  source, and with a sub-range \<open>0 \<le> start < end \<le> extent\<close> on an axis the length of
  that axis is \<open>end - start\<close>; the samples are laid out in that shape. This holds on
  both paths of the loader, with no permutation of the axes.
\<close>

theorem load_shape:
  assumes "in_extent (num_ilines f) il_range" "in_extent (num_xlines f) xl_range"
    and "in_extent (num_samples f) zs_range"
  shows "\<exists>d m. load_segy_cube f il_range xl_range zs_range None bulk_fits = Inr (d, m) \<and>
           shape d = (range_len (num_ilines f) il_range, range_len (num_xlines f) xl_range,
                      range_len (num_samples f) zs_range) \<and>
           length (vals d) = range_len (num_ilines f) il_range \<and>
           list_all (\<lambda>plane. length plane = range_len (num_xlines f) xl_range \<and>
              list_all (\<lambda>tr. length tr = range_len (num_samples f) zs_range) plane) (vals d)"
proof -
  let ?ir = "(range_start il_range, range_end il_range (int (num_ilines f)))"
  let ?xr = "(range_start xl_range, range_end xl_range (int (num_xlines f)))"
  let ?zr = "(range_start zs_range, range_end zs_range (int (num_samples f)))"
  have i: "inside (num_ilines f) ?ir" "inside (num_xlines f) ?xr" "inside (num_samples f) ?zr"
    using assms [THEN in_extent_bounds] by (simp_all add: inside_def)
  have "\<exists>m. load_segy_cube f il_range xl_range zs_range None bulk_fits =
          Inr (crop (cube f) ?ir ?xr ?zr, m)"
    using i by (simp add: load_segy_cube_def Let_def trace_by_trace_in_extent [OF assms]
        apply_swap_axes_def inside_def)
  then show ?thesis
    using crop_cube_shape [OF i] assms [THEN range_len_eq] by auto
qed

theorem load_shape_witness:
  "in_extent 3 (Some (1, 3)) \<and> in_extent 2 None \<and> in_extent 3 (Some (0, 2)) \<and>
   (\<exists>d m. load_segy_cube \<lparr>num_ilines = 3, num_xlines = 2, num_samples = 3, interval = 4000,
        sample_format = 1, raw = (\<lambda>t k. real (10 * t + k))\<rparr>
        (Some (1, 3)) None (Some (0, 2)) None False = Inr (d, m) \<and> shape d = (2, 2, 2))"
proof -
  let ?f = "\<lparr>num_ilines = 3, num_xlines = 2, num_samples = 3, interval = 4000,
        sample_format = 1, raw = (\<lambda>t k. real (10 * t + k))\<rparr>"
  have h: "in_extent (num_ilines ?f) (Some (1, 3))" "in_extent (num_xlines ?f) None"
    "in_extent (num_samples ?f) (Some (0, 2))"
    by (simp_all add: in_extent_def)
  from load_shape [OF h, of False] h show ?thesis
    by (auto simp: range_len_def)
qed

text \<open>
  C10. For all integers \<open>a < b\<close>, \<^verbatim>\<open>parse_range\<close> returns \<open>(a, b)\<close> on the string
  \<^verbatim>\<open>a:b\<close>, whatever the sign of \<open>a\<close>. The loader raises its range error exactly when
  an end exceeds the extent of the source, whatever the starts are; when no end does,
  the bulk path returns a volume for every start and records the start as it was given.
\<close>

theorem range_start_unchecked:
  "(a < b \<longrightarrow> parse_range (str_int a @ '':'' @ str_int b) = Inr (a, b)) \<and>
   ((load_segy_cube f il_range xl_range zs_range swap_axes bulk_fits =
       Inl (ValueError ''Crop ranges exceed cube dimensions'')) =
    (range_end il_range (int (num_ilines f)) > int (num_ilines f) \<or>
     range_end xl_range (int (num_xlines f)) > int (num_xlines f) \<or>
     range_end zs_range (int (num_samples f)) > int (num_samples f))) \<and>
   (range_end il_range (int (num_ilines f)) \<le> int (num_ilines f) \<and>
    range_end xl_range (int (num_xlines f)) \<le> int (num_xlines f) \<and>
    range_end zs_range (int (num_samples f)) \<le> int (num_samples f) \<longrightarrow>
    (\<exists>d m. load_segy_cube f il_range xl_range zs_range None True = Inr (d, m) \<and>
       iline_range m = (range_start il_range, range_end il_range (int (num_ilines f))) \<and>
       xline_range m = (range_start xl_range, range_end xl_range (int (num_xlines f))) \<and>
       z_range m = (range_start zs_range, range_end zs_range (int (num_samples f)))))"
proof (intro conjI impI)
  assume "a < b"
  then show "parse_range (str_int a @ '':'' @ str_int b) = Inr (a, b)"
    using parse_range_printed [of a b] by simp
next
  show "(load_segy_cube f il_range xl_range zs_range swap_axes bulk_fits =
       Inl (ValueError ''Crop ranges exceed cube dimensions'')) =
    (range_end il_range (int (num_ilines f)) > int (num_ilines f) \<or>
     range_end xl_range (int (num_xlines f)) > int (num_xlines f) \<or>
     range_end zs_range (int (num_samples f)) > int (num_samples f))"
    by (auto simp: load_segy_cube_def Let_def split: sum.splits if_splits
        dest: trace_by_trace_error apply_swap_axes_error)
next
  assume "range_end il_range (int (num_ilines f)) \<le> int (num_ilines f) \<and>
    range_end xl_range (int (num_xlines f)) \<le> int (num_xlines f) \<and>
    range_end zs_range (int (num_samples f)) \<le> int (num_samples f)"
  then show "\<exists>d m. load_segy_cube f il_range xl_range zs_range None True = Inr (d, m) \<and>
       iline_range m = (range_start il_range, range_end il_range (int (num_ilines f))) \<and>
       xline_range m = (range_start xl_range, range_end xl_range (int (num_xlines f))) \<and>
       z_range m = (range_start zs_range, range_end zs_range (int (num_samples f)))"
    by (simp add: load_segy_cube_def Let_def apply_swap_axes_def)
qed

theorem range_start_unchecked_witness:
  "(- 3::int) < 4 \<and> parse_range ''-3:4'' = Inr (- 3, 4) \<and>
   load_segy_cube \<lparr>num_ilines = 3, num_xlines = 2, num_samples = 3, interval = 4000,
        sample_format = 1, raw = (\<lambda>t k. real (10 * t + k))\<rparr>
        (Some (- 5, 2)) None None None True \<noteq> Inl (ValueError ''Crop ranges exceed cube dimensions'') \<and>
   (\<exists>d m. load_segy_cube \<lparr>num_ilines = 3, num_xlines = 2, num_samples = 3, interval = 4000,
        sample_format = 1, raw = (\<lambda>t k. real (10 * t + k))\<rparr>
        (Some (- 5, 2)) None None None True = Inr (d, m) \<and> iline_range m = (- 5, 2))"
proof -
  have s: "str_int (- 3) @ '':'' @ str_int 4 = ''-3:4''"
    by code_simp
  from range_start_unchecked [of "- 3" 4 "\<lparr>num_ilines = 3, num_xlines = 2, num_samples = 3,
        interval = 4000, sample_format = 1, raw = (\<lambda>t k. real (10 * t + k))\<rparr>"
        "Some (- 5, 2)" None None None True] s
  show ?thesis
    by (auto simp: range_end_def range_start_def)
qed

section \<open>Properties of the coherence\<close>

subsection \<open>The uniform filter is a mean\<close>

lemma clamp_index_less: "0 < n \<Longrightarrow> clamp_index n i < n"
  by (auto simp: clamp_index_def)

lemma uniform1_const:
  assumes "0 < sz" "0 < n" "\<And>t. t < n \<Longrightarrow> line t = c"
  shows "uniform1 line n sz i = c"
proof -
  have "(\<Sum>t\<leftarrow>[0..<sz]. line (clamp_index n (int i - int (sz div 2) + int t))) =
        (\<Sum>t\<leftarrow>[0..<sz]. c)"
    using assms(2,3) by (intro arg_cong [where f = sum_list] map_cong) (simp_all add: clamp_index_less)
  then show ?thesis
    using assms(1) by (simp add: uniform1_def sum_list_triv)
qed

lemma filter_axis0_const:
  "0 < sz \<Longrightarrow> filter_axis0 sz (tabulate3 (n0, n1, n2) (\<lambda>i j k. c)) = tabulate3 (n0, n1, n2) (\<lambda>i j k. c)"
  unfolding filter_axis0_def shape_tabulate3
  by (rule tabulate3_cong) (simp add: uniform1_const)

lemma filter_axis1_const:
  "0 < sz \<Longrightarrow> filter_axis1 sz (tabulate3 (n0, n1, n2) (\<lambda>i j k. c)) = tabulate3 (n0, n1, n2) (\<lambda>i j k. c)"
  unfolding filter_axis1_def shape_tabulate3
  by (rule tabulate3_cong) (simp add: uniform1_const)

lemma filter_axis2_const:
  "0 < sz \<Longrightarrow> filter_axis2 sz (tabulate3 (n0, n1, n2) (\<lambda>i j k. c)) = tabulate3 (n0, n1, n2) (\<lambda>i j k. c)"
  unfolding filter_axis2_def shape_tabulate3
  by (rule tabulate3_cong) (simp add: uniform1_const)

lemma uniform_filter_const:
  "uniform_filter (tabulate3 (n0, n1, n2) (\<lambda>i j k. c)) (s0, s1, s2) = tabulate3 (n0, n1, n2) (\<lambda>i j k. c)"
  by (simp add: uniform_filter_def Let_def filter_axis0_const filter_axis1_const filter_axis2_const)

lemma map_samples_tabulate3:
  "map_samples g (tabulate3 (n0, n1, n2) f) = tabulate3 (n0, n1, n2) (\<lambda>i j k. g (f i j k))"
  by (simp add: map_samples_def tabulate3_def o_def)

lemma map2_same: "map2 g (map f xs) (map h xs) = map (\<lambda>x. g (f x) (h x)) xs"
  by (induction xs) simp_all

lemma zip_samples_tabulate3:
  "zip_samples g (tabulate3 (n0, n1, n2) f) (tabulate3 (n0, n1, n2) h) =
     tabulate3 (n0, n1, n2) (\<lambda>i j k. g (f i j k) (h i j k))"
  by (simp add: zip_samples_def tabulate3_def map2_same)

lemma well_shaped_tabulate3:
  assumes "well_shaped a" "shape a = (n0, n1, n2)"
  shows "a = tabulate3 (n0, n1, n2) (sample a)"
proof -
  have l0: "length (vals a) = n0"
    and l1: "\<And>i. i < n0 \<Longrightarrow> length (vals a ! i) = n1"
    and l2: "\<And>i j. i < n0 \<Longrightarrow> j < n1 \<Longrightarrow> length (vals a ! i ! j) = n2"
    using assms by (auto simp: well_shaped_def list_all_length)
  have "vals a = map (\<lambda>i. map (\<lambda>j. map (sample a i j) [0..<n2]) [0..<n1]) [0..<n0]"
    by (auto simp: list_eq_iff_nth_eq l0 l1 l2 sample_def)
  then have "vals a = vals (tabulate3 (n0, n1, n2) (sample a))"
    by (simp add: vals_tabulate3)
  then show ?thesis
    using assms(2) by (intro ndarray.equality) simp_all
qed

lemma sum_list_div: "(\<Sum>x\<leftarrow>xs. f x / d) = (\<Sum>x\<leftarrow>xs. f x) / (d::real)"
  by (induction xs) (simp_all add: add_divide_distrib)

lemma sum_list_swap:
  "(\<Sum>x\<leftarrow>xs. \<Sum>y\<leftarrow>ys. f x y) = (\<Sum>y\<leftarrow>ys. \<Sum>x\<leftarrow>xs. (f x y :: real))"
  by (induction xs) (simp_all add: sum_list_addf)

lemma sample_filter_axis0:
  "shape a = (n0, n1, n2) \<Longrightarrow> i < n0 \<Longrightarrow> j < n1 \<Longrightarrow> k < n2 \<Longrightarrow>
   sample (filter_axis0 sz a) i j k = uniform1 (\<lambda>t. sample a t j k) n0 sz i"
  by (simp add: filter_axis0_def)

lemma sample_filter_axis1:
  "shape a = (n0, n1, n2) \<Longrightarrow> i < n0 \<Longrightarrow> j < n1 \<Longrightarrow> k < n2 \<Longrightarrow>
   sample (filter_axis1 sz a) i j k = uniform1 (\<lambda>t. sample a i t k) n1 sz j"
  by (simp add: filter_axis1_def)

lemma sample_filter_axis2:
  "shape a = (n0, n1, n2) \<Longrightarrow> i < n0 \<Longrightarrow> j < n1 \<Longrightarrow> k < n2 \<Longrightarrow>
   sample (filter_axis2 sz a) i j k = uniform1 (\<lambda>t. sample a i j t) n2 sz k"
  by (simp add: filter_axis2_def)

lemma shape_filter_axis [simp]:
  "shape (filter_axis0 sz a) = shape a" "shape (filter_axis1 sz a) = shape a"
  "shape (filter_axis2 sz a) = shape a"
  by (simp_all add: filter_axis0_def filter_axis1_def filter_axis2_def)

lemma sample_uniform_filter:
  assumes "1 < py" "1 < px" "1 < pz" "i < n0" "j < n1" "k < n2"
  shows "sample (uniform_filter (tabulate3 (n0, n1, n2) F) (py, px, pz)) i j k =
     (\<Sum>a\<leftarrow>[0..<nat py]. \<Sum>b\<leftarrow>[0..<nat px]. \<Sum>c\<leftarrow>[0..<nat pz].
        F (clamp_index n0 (int i - py div 2 + int a))
          (clamp_index n1 (int j - px div 2 + int b))
          (clamp_index n2 (int k - pz div 2 + int c))) / real_of_int (py * px * pz)"
proof -
  let ?T = "tabulate3 (n0, n1, n2) F"
  let ?c0 = "\<lambda>a. clamp_index n0 (int i - py div 2 + int a)"
  let ?c1 = "\<lambda>b. clamp_index n1 (int j - px div 2 + int b)"
  let ?c2 = "\<lambda>c. clamp_index n2 (int k - pz div 2 + int c)"
  have pos: "0 < n0" "0 < n1" "0 < n2" using assms by simp_all
  have half: "int (nat py div 2) = py div 2" "int (nat px div 2) = px div 2"
    "int (nat pz div 2) = pz div 2"
    using assms by (simp_all add: zdiv_int)
  have a0: "sample (filter_axis0 (nat py) ?T) i' j' k' =
              (\<Sum>a\<leftarrow>[0..<nat py]. F (clamp_index n0 (int i' - py div 2 + int a)) j' k') / real (nat py)"
    if "i' < n0" "j' < n1" "k' < n2" for i' j' k'
    using that pos
    by (simp add: sample_filter_axis0 [of _ n0 n1 n2] uniform1_def half clamp_index_less)
  have a1: "sample (filter_axis1 (nat px) (filter_axis0 (nat py) ?T)) i' j' k' =
              (\<Sum>b\<leftarrow>[0..<nat px]. \<Sum>a\<leftarrow>[0..<nat py].
                 F (clamp_index n0 (int i' - py div 2 + int a))
                   (clamp_index n1 (int j' - px div 2 + int b)) k') / real (nat py) / real (nat px)"
    if "i' < n0" "j' < n1" "k' < n2" for i' j' k'
    using that pos
    by (simp add: sample_filter_axis1 [of _ n0 n1 n2] uniform1_def half clamp_index_less a0
        sum_list_div)
  have "sample (uniform_filter ?T (py, px, pz)) i j k =
          sample (filter_axis2 (nat pz) (filter_axis1 (nat px) (filter_axis0 (nat py) ?T))) i j k"
    using assms by (simp add: uniform_filter_def)
  also have "\<dots> = (\<Sum>c\<leftarrow>[0..<nat pz]. \<Sum>b\<leftarrow>[0..<nat px]. \<Sum>a\<leftarrow>[0..<nat py].
                 F (?c0 a) (?c1 b) (?c2 c)) / real (nat py) / real (nat px) / real (nat pz)"
    using assms pos
    by (simp add: sample_filter_axis2 [of _ n0 n1 n2] uniform1_def half clamp_index_less a1
        sum_list_div)
  also have "(\<Sum>c\<leftarrow>[0..<nat pz]. \<Sum>b\<leftarrow>[0..<nat px]. \<Sum>a\<leftarrow>[0..<nat py]. F (?c0 a) (?c1 b) (?c2 c)) =
             (\<Sum>a\<leftarrow>[0..<nat py]. \<Sum>b\<leftarrow>[0..<nat px]. \<Sum>c\<leftarrow>[0..<nat pz]. F (?c0 a) (?c1 b) (?c2 c))"
  proof -
    have "(\<Sum>c\<leftarrow>[0..<nat pz]. \<Sum>b\<leftarrow>[0..<nat px]. \<Sum>a\<leftarrow>[0..<nat py]. F (?c0 a) (?c1 b) (?c2 c)) =
          (\<Sum>c\<leftarrow>[0..<nat pz]. \<Sum>a\<leftarrow>[0..<nat py]. \<Sum>b\<leftarrow>[0..<nat px]. F (?c0 a) (?c1 b) (?c2 c))"
      by (subst sum_list_swap [of "\<lambda>b a. F (?c0 a) (?c1 b) (?c2 _)"]) simp
    also have "\<dots> = (\<Sum>a\<leftarrow>[0..<nat py]. \<Sum>c\<leftarrow>[0..<nat pz]. \<Sum>b\<leftarrow>[0..<nat px]. F (?c0 a) (?c1 b) (?c2 c))"
      by (rule sum_list_swap)
    also have "\<dots> = (\<Sum>a\<leftarrow>[0..<nat py]. \<Sum>b\<leftarrow>[0..<nat px]. \<Sum>c\<leftarrow>[0..<nat pz]. F (?c0 a) (?c1 b) (?c2 c))"
      by (subst sum_list_swap [of "\<lambda>c b. F (?c0 _) (?c1 b) (?c2 c)"]) simp
    finally show ?thesis .
  qed
  also have "\<dots> / real (nat py) / real (nat px) / real (nat pz) =
             \<dots> / real_of_int (py * px * pz)"
    using assms by (simp add: field_simps)
  finally show ?thesis .
qed

lemma well_shaped_tabulated [simp]: "well_shaped (tabulate3 (n0, n1, n2) f)"
  by (simp add: well_shaped_def vals_tabulate3 list_all_iff)

lemma uniform_filter_tabulated:
  assumes "1 < pz"
  shows "uniform_filter (tabulate3 (n0, n1, n2) F) (py, px, pz) =
           tabulate3 (n0, n1, n2) (sample (uniform_filter (tabulate3 (n0, n1, n2) F) (py, px, pz)))"
proof -
  let ?U = "uniform_filter (tabulate3 (n0, n1, n2) F) (py, px, pz)"
  have s: "shape ?U = (n0, n1, n2)"
    by (simp add: uniform_filter_def Let_def)
  have "\<exists>a. ?U = filter_axis2 (nat pz) a"
    using assms by (auto simp: uniform_filter_def Let_def)
  then have "well_shaped ?U"
    using s by (cases "shape ?U") (auto simp: filter_axis2_def)
  then show ?thesis
    using s by (rule well_shaped_tabulate3)
qed

lemma coherence_3d_sample:
  assumes "well_shaped data" "shape data = (n0, n1, n2)"
    and "1 < py" "1 < px" "1 < pz" "i < n0" "j < n1" "k < n2"
  shows "sample (coherence_3d data (py, px, pz)) i j k =
           (window_sum (\<lambda>x. x) data (py, px, pz) i j k / real_of_int (py * px * pz))\<^sup>2 /
           (real_of_int (py * px * pz) *
              (window_sum (\<lambda>x. x\<^sup>2) data (py, px, pz) i j k / real_of_int (py * px * pz)) +
            1 / 10 ^ 6)"
proof -
  let ?T = "tabulate3 (n0, n1, n2) (sample data)"
  let ?Q = "tabulate3 (n0, n1, n2) (\<lambda>i j k. (sample data i j k)\<^sup>2)"
  let ?p = "(py, px, pz)"
  have d: "data = ?T"
    using assms(1,2) by (rule well_shaped_tabulate3)
  have q: "map_samples (\<lambda>x. x\<^sup>2) ?T = ?Q"
    by (simp add: map_samples_tabulate3)
  have "coherence_3d ?T ?p =
          zip_samples (\<lambda>s q. s\<^sup>2 / coherence_denominator (py * px * pz) q (1 / 10 ^ 6))
            (uniform_filter ?T ?p) (uniform_filter ?Q ?p)"
    by (simp add: coherence_3d_def Let_def q)
  also have "\<dots> = tabulate3 (n0, n1, n2)
       (\<lambda>i j k. (sample (uniform_filter ?T ?p) i j k)\<^sup>2 /
          coherence_denominator (py * px * pz) (sample (uniform_filter ?Q ?p) i j k) (1 / 10 ^ 6))"
    by (subst uniform_filter_tabulated [OF assms(5), of n0 n1 n2 "sample data"],
        subst uniform_filter_tabulated [OF assms(5), of n0 n1 n2 "\<lambda>i j k. (sample data i j k)\<^sup>2"],
        rule zip_samples_tabulate3)
  finally have "sample (coherence_3d ?T ?p) i j k =
      (sample (uniform_filter ?T ?p) i j k)\<^sup>2 /
          coherence_denominator (py * px * pz) (sample (uniform_filter ?Q ?p) i j k) (1 / 10 ^ 6)"
    using assms(6-8) by simp
  moreover have "sample (uniform_filter ?T ?p) i j k =
      window_sum (\<lambda>x. x) data ?p i j k / real_of_int (py * px * pz)"
    using assms(2) by (simp add: sample_uniform_filter [OF assms(3-8)] window_sum_def)
  moreover have "sample (uniform_filter ?Q ?p) i j k =
      window_sum (\<lambda>x. x\<^sup>2) data ?p i j k / real_of_int (py * px * pz)"
    using assms(2) by (simp add: sample_uniform_filter [OF assms(3-8)] window_sum_def)
  ultimately show ?thesis
    using d by (simp add: coherence_denominator_def)
qed

subsection \<open>The coherence of a volume\<close>

text \<open>
  C1 fails on the code. On a volume whose samples all equal \<open>c\<close> the function returns
  \<open>c\<^sup>2 / (N * c\<^sup>2 + \<epsilon>)\<close> at every sample, with \<open>N = py * px * pz\<close>, which is below \<open>1 / N\<close>
  and not near 1: for samples 1 and the patch (3, 3, 3) it is \<open>1 / 27.000001\<close>. The filter
  that the code takes for the sum over the window is its mean.
\<close>

theorem coherence_constant_volume:
  "coherence_3d (tabulate3 (n0, n1, n2) (\<lambda>i j k. c)) (py, px, pz) =
     tabulate3 (n0, n1, n2)
       (\<lambda>i j k. c\<^sup>2 / (real_of_int (py * px * pz) * c\<^sup>2 + 1 / 10 ^ 6)) \<and>
   coherence_3d \<lparr>shape = (1, 1, 2), vals = [[[1, 1]]]\<rparr> (3, 3, 3) =
     \<lparr>shape = (1, 1, 2), vals = [[[1000000 / 27000001, 1000000 / 27000001]]]\<rparr>"
proof
  show "coherence_3d (tabulate3 (n0, n1, n2) (\<lambda>i j k. c)) (py, px, pz) =
     tabulate3 (n0, n1, n2)
       (\<lambda>i j k. c\<^sup>2 / (real_of_int (py * px * pz) * c\<^sup>2 + 1 / 10 ^ 6))"
    by (simp add: coherence_3d_def Let_def map_samples_tabulate3 uniform_filter_const
        zip_samples_tabulate3 coherence_denominator_def)
  show "coherence_3d \<lparr>shape = (1, 1, 2), vals = [[[1, 1]]]\<rparr> (3, 3, 3) =
     \<lparr>shape = (1, 1, 2), vals = [[[1000000 / 27000001, 1000000 / 27000001]]]\<rparr>"
    by code_simp
qed

text \<open>
  C2 fails on the code. For the volume of one trace with the samples 1 and 2 and the
  patch (3, 3, 3), the window of the first sample has the sum 36 and the sum of squares
  54, so the spec's quotient is \<open>36\<^sup>2 / (27 * 54 + \<epsilon>)\<close>, about 0.889; the function
  returns \<open>(36 / 27)\<^sup>2 / (27 * (54 / 27) + \<epsilon>)\<close>, about 0.033. Lemma
  \<open>coherence_3d_sample\<close> gives the value of the function at every sample: the spec's
  quotient with both sums divided by \<open>N\<close>.
\<close>

theorem coherence_differs_from_semblance:
  "sample (coherence_3d \<lparr>shape = (1, 1, 2), vals = [[[1, 2]]]\<rparr> (3, 3, 3)) 0 0 0 =
     16000000 / 486000009 \<and>
   window_sum (\<lambda>x. x) \<lparr>shape = (1, 1, 2), vals = [[[1, 2]]]\<rparr> (3, 3, 3) 0 0 0 = 36 \<and>
   window_sum (\<lambda>x. x\<^sup>2) \<lparr>shape = (1, 1, 2), vals = [[[1, 2]]]\<rparr> (3, 3, 3) 0 0 0 = 54 \<and>
   semblance_spec \<lparr>shape = (1, 1, 2), vals = [[[1, 2]]]\<rparr> (3, 3, 3) 0 0 0 =
     1296000000 / 1458000001"
  by code_simp

section \<open>Properties of the z-window normalisation on 32-bit floats\<close>

lemma overflow_inside: "\<bar>r\<bar> \<le> mx \<Longrightarrow> overflow mx r = Finite r"
  by (auto simp: overflow_def)

lemma f32_le_f64: "f32_max \<le> f64_max"
proof -
  have "f32_max \<le> 2 * 2 ^ 127" by (simp add: f32_max_def)
  also have "\<dots> = (2::real) ^ 128" by simp
  also have "\<dots> \<le> 2 ^ 1023" by (rule power_increasing) simp_all
  also have "\<dots> \<le> f64_max" by (simp add: f64_max_def)
  finally show ?thesis .
qed

lemma fl_add_NaN_right: "fl_add mx x NaN = NaN"
  by (cases x) simp_all

lemma fold_add_finite:
  assumes "real sz * \<bar>c\<bar> \<le> mx" "k \<le> sz"
  shows "fold (\<lambda>t tmp. fl_add mx tmp (Finite c)) [0..<k] (Finite 0) = Finite (real k * c)"
  using assms(2)
proof (induction k)
  case 0
  then show ?case by simp
next
  case (Suc k)
  have "\<bar>real (Suc k) * c\<bar> \<le> real sz * \<bar>c\<bar>"
    using Suc.prems by (simp add: abs_mult mult_right_mono del: of_nat_Suc)
  then have "\<bar>real k * c + c\<bar> \<le> mx"
    using assms(1) by (simp add: algebra_simps)
  with Suc show ?case
    by (simp add: overflow_inside algebra_simps)
qed

lemma running_sum_finite:
  assumes "real sz * \<bar>c\<bar> \<le> f64_max" "\<And>t. ext t = Finite c"
  shows "running_sum ext sz l = Finite (real sz * c)"
proof (induction l)
  case 0
  show ?case
    using fold_add_finite [OF assms(1) order_refl] by (simp add: assms(2))
next
  case (Suc l)
  have "\<bar>real sz * c\<bar> \<le> f64_max"
    using assms(1) by (simp add: abs_mult)
  moreover have "0 \<le> f64_max"
    using assms(1) by (meson abs_ge_zero mult_nonneg_nonneg of_nat_0_le_iff order_trans)
  ultimately show ?case
    using Suc by (simp add: assms(2) fl_sub_def overflow_inside)
qed

lemma uniform1_f32_finite:
  assumes "0 < sz" "0 < n" "real sz * \<bar>c\<bar> \<le> f64_max" "\<bar>c\<bar> \<le> f32_max"
    and "\<And>t. t < n \<Longrightarrow> line t = Finite c"
  shows "uniform1_f32 line n sz i = Finite c"
proof -
  have ext: "extended line n sz t = Finite c" for t
    using assms(2,5) by (simp add: extended_def clamp_index_less)
  have "\<bar>c\<bar> \<le> f64_max"
    using assms(4) f32_le_f64 by simp
  then show ?thesis
    using assms(1,4)
    by (simp add: uniform1_f32_def running_sum_finite [OF assms(3) ext] overflow_inside)
qed

lemma uniform1_f32_overflowed:
  assumes "0 < n" "\<And>t. t < n \<Longrightarrow> line t = PosInf"
  shows "uniform1_f32 line n sz (Suc l) = NaN"
proof -
  have ext: "extended line n sz t = PosInf" for t
    using assms by (simp add: extended_def clamp_index_less)
  show ?thesis
    by (simp add: uniform1_f32_def ext fl_sub_def fl_add_NaN_right)
qed


lemma filter_axis2_f32_finite:
  assumes "0 < sz" "real sz * \<bar>c\<bar> \<le> f64_max" "\<bar>c\<bar> \<le> f32_max"
  shows "filter_axis2_f32 sz (tabulate3 (n0, n1, n2) (\<lambda>i j k. Finite c)) =
           tabulate3 (n0, n1, n2) (\<lambda>i j k. Finite c)"
  unfolding filter_axis2_f32_def shape_tabulate3
  by (rule tabulate3_cong) (simp add: uniform1_f32_finite assms)

lemma filter_axis2_f32_overflowed:
  "filter_axis2_f32 sz (tabulate3 (n0, n1, n2) (\<lambda>i j k. PosInf)) =
     tabulate3 (n0, n1, n2)
       (\<lambda>i j k. if k = 0 then uniform1_f32 (\<lambda>t. PosInf) n2 sz 0 else NaN)"
  unfolding filter_axis2_f32_def shape_tabulate3
proof (rule tabulate3_cong)
  fix i j k
  assume b: "i < n0" "j < n1" "k < n2"
  show "uniform1_f32 (\<lambda>t. sample (tabulate3 (n0, n1, n2) (\<lambda>i j k. PosInf)) i j t)
          (extent (n0, n1, n2) 2) sz k =
        (if k = 0 then uniform1_f32 (\<lambda>t. PosInf) n2 sz 0 else NaN)"
  proof (cases k)
    case 0
    have "extended (\<lambda>t. sample (tabulate3 (n0, n1, n2) (\<lambda>i j k. PosInf)) i j t) n2 sz =
          extended (\<lambda>t. PosInf) n2 sz"
      using b by (auto simp: extended_def clamp_index_less)
    with 0 show ?thesis by (simp add: uniform1_f32_def)
  next
    case (Suc l)
    then show ?thesis
      using b by (simp add: uniform1_f32_overflowed)
  qed
qed

lemma reflect_index_less: "0 < n \<Longrightarrow> reflect_index n i < n"
  by (auto simp: reflect_index_def Let_def)

text \<open>
  C9 fails on the code. The volume of one trace with three samples \<open>2\<^sup>100\<close> is finite in
  32 bits. Its square overflows to infinity, so the mean of the squares is infinite or
  NaN and the square of the mean is infinite; their difference, the variance, is NaN.
  \<^verbatim>\<open>np.maximum\<close> keeps the NaN, so the clamp does not make the divisor at least \<open>eps\<close>,
  and every sample of the normalised volume is NaN.
\<close>

theorem z_normalize_overflow:
  "2 ^ 100 \<le> f32_max \<and>
   z_normalize_f32
     \<lparr>shape = (1, 1, 3), vals = [[[Finite (2 ^ 100), Finite (2 ^ 100), Finite (2 ^ 100)]]]\<rparr>
     3 (Finite (1 / 10 ^ 6)) =
   Inr \<lparr>shape = (1, 1, 3), vals = [[[NaN, NaN, NaN]]]\<rparr>"
proof -
  let ?x = "Finite (2 ^ 100)"
  let ?d = "\<lparr>shape = (1, 1, 3), vals = [[[?x, ?x, ?x]]]\<rparr>"
  let ?p = "tabulate3 (1, 1, 5) (\<lambda>i j k. ?x)"
  let ?nan = "\<lparr>shape = (1, 1, 3), vals = [[[NaN, NaN, NaN]]]\<rparr>"
  have fits: "(2::real) ^ 100 \<le> f32_max"
    by (simp add: f32_max_def)
  have f64: "real 3 * \<bar>(2::real) ^ 100\<bar> \<le> f64_max"
  proof -
    have "real 3 * \<bar>(2::real) ^ 100\<bar> \<le> 2 ^ 102" by simp
    also have "\<dots> \<le> 2 ^ 1023" by (rule power_increasing) simp_all
    also have "\<dots> \<le> f64_max" by (simp add: f64_max_def)
    finally show ?thesis .
  qed
  have square: "fl_mul f32_max ?x ?x = PosInf"
  proof -
    have "f32_max < 2 * 2 ^ 127" by (simp add: f32_max_def)
    also have "\<dots> = (2::real) ^ 128" by simp
    also have "\<dots> \<le> 2 ^ 200" by (rule power_increasing) simp_all
    finally have "f32_max < (2::real) ^ 100 * 2 ^ 100" by (simp add: power_add [symmetric])
    then show ?thesis by (simp add: overflow_def)
  qed
  have "[?x, ?x, ?x] ! reflect_index 3 i = ?x" for i
    using nth_mem [of "reflect_index 3 i" "[?x, ?x, ?x]"] reflect_index_less [of 3 i] by simp
  then have padded: "np_pad_reflect ?d 1 = Inr ?p"
    by (simp add: np_pad_reflect_def tabulate3_def sample_def)
  have local_mean: "slice_axis2 (uniform_filter_f32 ?p (1, 1, 3)) 1 (- 1) = ?d"
    using fits f64
    by (simp add: uniform_filter_f32_def filter_axis2_f32_finite)
       (simp add: slice_axis2_def tabulate3_def py_slice_def slice_len_def clip_def
          upt_conv_Cons)
  have padded_sq: "map_samples (\<lambda>x. fl_mul f32_max x x) ?p = tabulate3 (1, 1, 5) (\<lambda>i j k. PosInf)"
    by (simp only: map_samples_tabulate3 square)
  have local_mean_sq:
    "slice_axis2 (uniform_filter_f32 (tabulate3 (1, 1, 5) (\<lambda>i j k. PosInf)) (1, 1, 3)) 1 (- 1) =
       ?nan"
    by (simp add: uniform_filter_f32_def filter_axis2_f32_overflowed)
       (simp add: slice_axis2_def tabulate3_def py_slice_def slice_len_def clip_def
          upt_conv_Cons)
  have local_var:
    "zip_samples (\<lambda>q m. fl_sub f32_max q (fl_mul f32_max m m)) ?nan ?d = ?nan"
    by (simp add: zip_samples_def fl_sub_def)
  have local_std:
    "map_samples (\<lambda>v. fl_add f32_max (fl_sqrt (fl_maximum v (Finite 0))) (Finite (1 / 10 ^ 6))) ?nan =
       ?nan"
    by (simp add: map_samples_def)
  have zero: "fl_sub f32_max (Finite a) (Finite a) = Finite 0" for a
    using fits by (simp add: fl_sub_def overflow_def)
  have centred: "broadcast2 (fl_sub f32_max) ?d ?d =
      Inr \<lparr>shape = (1, 1, 3), vals = [[[Finite 0, Finite 0, Finite 0]]]\<rparr>"
    by (simp add: broadcast2_def bdim_def pick_def tabulate3_def sample_def upt_conv_Cons zero)
  have quotient:
    "broadcast2 (fl_div f32_max) \<lparr>shape = (1, 1, 3), vals = [[[Finite 0, Finite 0, Finite 0]]]\<rparr> ?nan =
       Inr ?nan"
    by (simp add: broadcast2_def bdim_def pick_def tabulate3_def sample_def upt_conv_Cons)
  have window: "(if (3::int) mod 2 = 0 then 3 + 1 else 3) = 3" "(3::int) div 2 = 1"
    by simp_all
  have "z_normalize_f32 ?d 3 (Finite (1 / 10 ^ 6)) = Inr ?nan"
    by (simp only: z_normalize_f32_def Let_def window padded sum.case padded_sq local_mean
        local_mean_sq local_var local_std centred quotient)
  with fits show ?thesis by simp
qed

end
